theory Spec2Isabelle
  imports Complex_Main "HOL-Library.Multiset" "HOL-Library.Sublist"
begin

section \<open>Data model\<close>

text \<open>
  The scripts compute with Python floats and integers.  Floats are modelled as
  \<^typ>\<open>real\<close> (exact arithmetic, no rounding, no overflow, no NaN), Python
  integers as \<^typ>\<open>int\<close>, strings as \<^typ>\<open>string\<close>.  The fee computation is
  also given with the rounding of IEEE doubles (\<open>calc_net_pnl_f64\<close>), for the
  statements that depend on it.  An hourly candle is
  the dictionary built in \<open>generate_realistic_btc_data\<close>; its keys become
  the fields of a record (prefixed, since \<open>open\<close> is reserved).
\<close>

record candle =
  open_time :: int
  c_open :: real
  c_high :: real
  c_low :: real
  c_close :: real
  c_volume :: real
  close_time :: int

section \<open>Fees (backtest.py, experiment\_conservative.py)\<close>

definition TAKER_FEE_PCT :: real where
  "TAKER_FEE_PCT = 1.5"

definition calc_net_pnl :: "int \<Rightarrow> real \<Rightarrow> real \<Rightarrow> string \<Rightarrow> real" where
  "calc_net_pnl contracts entry_price exit_price exit_type =
     (let entry_cost = real_of_int contracts * entry_price;
          entry_fee = entry_cost * (TAKER_FEE_PCT / 100);
          total_entry_cost = entry_cost + entry_fee;
          exit_revenue = real_of_int contracts * exit_price
      in if exit_type = ''early''
         then (let exit_fee = exit_revenue * (TAKER_FEE_PCT / 100)
               in (exit_revenue - exit_fee) - total_entry_cost)
         else exit_revenue - total_entry_cost)"

section \<open>Risk of ruin and resale price (backtest.py, experiment\_conservative.py)\<close>

text \<open>The z-score lookup table at the end of \<open>calc_risk_of_ruin\<close>.\<close>

definition ror_lookup :: "real \<Rightarrow> real" where
  "ror_lookup z =
     (if z \<le> -2 then 0.98
      else if z \<le> -1 then 0.84
      else if z \<le> -0.5 then 0.69
      else if z \<le> 0 then 0.5
      else if z \<le> 0.5 then 0.31
      else if z \<le> 1 then 0.16
      else if z \<le> 1.5 then 0.07
      else if z \<le> 2 then 0.02
      else 0.01)"

definition calc_risk_of_ruin :: "real \<Rightarrow> real \<Rightarrow> real \<Rightarrow> real \<Rightarrow> real" where
  "calc_risk_of_ruin current_price strike volatility minutes_remaining =
     (let distance = current_price - strike;
          time_hours = minutes_remaining / 60;
          expected_move = current_price * (volatility / 100) * sqrt (max time_hours 0.01);
          z = (if expected_move > 0 then distance / expected_move else 0)
      in ror_lookup z)"

definition estimate_contract_price :: "real \<Rightarrow> real \<Rightarrow> real" where
  "estimate_contract_price distance_from_strike minutes_remaining =
     (if distance_from_strike \<le> 0 then 0.30
      else (let base = min 0.95 (0.5 + distance_from_strike / 1000);
                time_mult = 1 + (60 - minutes_remaining) / 120
            in min 0.99 (base * time_mult)))"

section \<open>Continuous fair value (backtest\_combined.py, experiment\_timed\_exit.py)\<close>

definition normal_cdf :: "real \<Rightarrow> real" where
  "normal_cdf x0 =
     (let a1 = 0.254829592; a2 = -0.284496736; a3 = 1.421413741;
          a4 = -1.453152027; a5 = 1.061405429;
          p = 0.3275911;
          sign = (if x0 < 0 then -1 else 1);
          x = \<bar>x0\<bar>;
          t = 1.0 / (1.0 + p * x);
          y = 1.0 - (((((a5 * t + a4) * t) + a3) * t + a2) * t + a1) * t * exp (- x * x / 2.0)
      in 0.5 * (1.0 + sign * y))"

definition estimate_fair_value :: "real \<Rightarrow> real \<Rightarrow> real \<Rightarrow> real \<Rightarrow> real" where
  "estimate_fair_value price strike vol mins_remaining =
     (if vol \<le> 0 \<or> mins_remaining \<le> 0 then (if price > strike then 1.0 else 0.0)
      else (let time_hours = max mins_remaining 0.5 / 60;
                expected_move = price * (vol / 100) * sqrt time_hours
            in if expected_move \<le> 0 then (if price \<ge> strike then 0.99 else 0.01)
               else (let z = (price - strike) / expected_move;
                         prob = normal_cdf z
                     in max 0.01 (min 0.99 prob))))"

text \<open>
  Three names for parts of \<open>normal_cdf\<close>, used to state its properties: the polynomial
  in \<open>t\<close>, its derivative, and the term \<open>1 - y\<close> at a non-negative \<open>x\<close>.
\<close>

definition as_poly :: "real \<Rightarrow> real" where
  "as_poly t = (((((1.061405429 * t + (-1.453152027)) * t) + 1.421413741) * t + (-0.284496736)) * t + 0.254829592) * t"

definition as_poly_deriv :: "real \<Rightarrow> real" where
  "as_poly_deriv t = 0.254829592 + 2 * (-0.284496736) * t + 3 * 1.421413741 * t^2
       + 4 * (-1.453152027) * t^3 + 5 * 1.061405429 * t^4"

definition tail_term :: "real \<Rightarrow> real" where
  "tail_term x = as_poly (1 / (1 + 0.3275911 * x)) * exp (- x * x / 2)"

section \<open>Trade simulation with the exit checkpoints (backtest.py)\<close>

text \<open>
  The dictionary returned by \<open>simulate_trade\<close>: the keys \<open>settlement_price\<close> and
  \<open>exit_reason\<close> are present on some branches only.
\<close>

record trade_result =
  outcome :: string
  pnl :: real
  settlement_price :: "real option"
  exit_reason :: "string option"

text \<open>The last block of \<open>simulate_trade\<close>: hold to settlement.\<close>

definition hold_to_settlement :: "real \<Rightarrow> real \<Rightarrow> int \<Rightarrow> real \<Rightarrow> trade_result" where
  "hold_to_settlement entry_price strike contracts settle_price =
     (if settle_price > strike
      then \<lparr>outcome = ''win'', pnl = calc_net_pnl contracts entry_price 1.0 ''settlement'',
            settlement_price = Some settle_price, exit_reason = None\<rparr>
      else \<lparr>outcome = ''loss'', pnl = calc_net_pnl contracts entry_price 0.0 ''settlement'',
            settlement_price = Some settle_price, exit_reason = None\<rparr>)"

definition simulate_trade ::
  "real \<Rightarrow> real \<Rightarrow> int \<Rightarrow> candle list \<Rightarrow> real \<Rightarrow> trade_result" where
  "simulate_trade entry_price strike contracts candles_after volatility =
     (case candles_after of
        [] \<Rightarrow> \<lparr>outcome = ''no_data'', pnl = 0, settlement_price = None, exit_reason = None\<rparr>
      | settlement_candle # _ \<Rightarrow>
         (let settle_price = c_close settlement_candle;
              mid_price = (c_open settlement_candle + c_close settlement_candle) / 2;
              distance_mid = mid_price - strike;
              min_remaining = 30;
              ror = calc_risk_of_ruin mid_price strike volatility min_remaining;
              implied_price = estimate_contract_price distance_mid min_remaining;
              early_exit_pnl = calc_net_pnl contracts entry_price implied_price ''early'';
              win_prob = 1 - ror;
              settle_win_pnl = calc_net_pnl contracts entry_price 1.0 ''settlement'';
              settle_lose_pnl = calc_net_pnl contracts entry_price 0.0 ''settlement'';
              settle_ev = win_prob * settle_win_pnl + ror * settle_lose_pnl
          in if ror \<ge> 0.5
             then \<lparr>outcome = ''early_exit_critical'', pnl = early_exit_pnl,
                   settlement_price = Some settle_price, exit_reason = Some ''critical_risk''\<rparr>
             else if settle_ev < early_exit_pnl \<and> early_exit_pnl > 0
             then \<lparr>outcome = ''early_exit_ev'', pnl = early_exit_pnl,
                   settlement_price = Some settle_price, exit_reason = Some ''negative_ev_hold''\<rparr>
             else (let late_price = c_close settlement_candle;
                       late_distance = late_price - strike;
                       late_ror = calc_risk_of_ruin late_price strike volatility 10
                   in if late_ror \<ge> 0.3
                      then (let late_implied = estimate_contract_price late_distance 10;
                                late_exit_pnl = calc_net_pnl contracts entry_price late_implied ''early'';
                                late_win_prob = 1 - late_ror;
                                late_settle_ev = late_win_prob * settle_win_pnl + late_ror * settle_lose_pnl
                            in if late_settle_ev \<le> late_exit_pnl * 1.2
                               then \<lparr>outcome = ''early_exit_high_risk'', pnl = late_exit_pnl,
                                     settlement_price = Some settle_price,
                                     exit_reason = Some ''high_risk_late''\<rparr>
                               else hold_to_settlement entry_price strike contracts settle_price)
                      else hold_to_settlement entry_price strike contracts settle_price)))"

text \<open>
  The three exit conditions of \<open>simulate_trade\<close>, read off its checkpoints: critical
  risk and negative expected value with 30 minutes remaining, high risk with 10.
\<close>

definition checkpoint30_critical :: "real \<Rightarrow> candle \<Rightarrow> real \<Rightarrow> bool" where
  "checkpoint30_critical strike sc volatility =
     (calc_risk_of_ruin ((c_open sc + c_close sc) / 2) strike volatility 30 \<ge> 0.5)"

definition checkpoint30_negative_ev :: "real \<Rightarrow> real \<Rightarrow> int \<Rightarrow> candle \<Rightarrow> real \<Rightarrow> bool" where
  "checkpoint30_negative_ev entry_price strike contracts sc volatility =
     (let mid_price = (c_open sc + c_close sc) / 2;
          ror = calc_risk_of_ruin mid_price strike volatility 30;
          early_exit_pnl = calc_net_pnl contracts entry_price
                             (estimate_contract_price (mid_price - strike) 30) ''early'';
          settle_ev = (1 - ror) * calc_net_pnl contracts entry_price 1.0 ''settlement''
                      + ror * calc_net_pnl contracts entry_price 0.0 ''settlement''
      in settle_ev < early_exit_pnl \<and> early_exit_pnl > 0)"

definition checkpoint50_high_risk :: "real \<Rightarrow> real \<Rightarrow> int \<Rightarrow> candle \<Rightarrow> real \<Rightarrow> bool" where
  "checkpoint50_high_risk entry_price strike contracts sc volatility =
     (let late_price = c_close sc;
          late_ror = calc_risk_of_ruin late_price strike volatility 10;
          late_exit_pnl = calc_net_pnl contracts entry_price
                            (estimate_contract_price (late_price - strike) 10) ''early'';
          late_settle_ev = (1 - late_ror) * calc_net_pnl contracts entry_price 1.0 ''settlement''
                           + late_ror * calc_net_pnl contracts entry_price 0.0 ''settlement''
      in late_ror \<ge> 0.3 \<and> late_settle_ev \<le> late_exit_pnl * 1.2)"

section \<open>Indicators, strikes and the deployed signals (backtest.py)\<close>

text \<open>
  Python errors that the modelled code can raise.  \<open>candles[-1]\<close> on an empty list raises
  \<open>IndexError\<close>.
\<close>

datatype py_error = IndexError

text \<open>\<open>xs[-n:]\<close> for a positive \<open>n\<close>: the last \<open>n\<close> elements (all of them if there are fewer).\<close>

definition py_last_n :: "nat \<Rightarrow> 'a list \<Rightarrow> 'a list" where
  "py_last_n n xs = drop (length xs - n) xs"

text \<open>\<open>xs[a:b]\<close> for indices \<open>0 \<le> a\<close> and \<open>0 \<le> b\<close>.\<close>

definition py_slice :: "'a list \<Rightarrow> nat \<Rightarrow> nat \<Rightarrow> 'a list" where
  "py_slice xs a b = take (b - a) (drop a xs)"

text \<open>
  Python's \<open>round(x)\<close> to an integer: to the nearest, a tie to the even neighbour.
\<close>

definition py_round :: "real \<Rightarrow> int" where
  "py_round x =
     (let f = \<lfloor>x\<rfloor>; d = x - real_of_int f
      in if d < 1 / 2 then f
         else if d > 1 / 2 then f + 1
         else if even f then f else f + 1)"

text \<open>The period is one of the literals 3, 6 and 12 at every call.\<close>

definition calc_sma :: "candle list \<Rightarrow> nat \<Rightarrow> real" where
  "calc_sma candles period =
     (if length candles < period then 0
      else sum_list (map c_close (py_last_n period candles)) / real period)"

definition calc_volatility :: "candle \<Rightarrow> real" where
  "calc_volatility candle =
     (if c_open candle = 0 then 0
      else ((c_high candle - c_low candle) / c_open candle) * 100)"

definition calc_price_position :: "candle \<Rightarrow> real" where
  "calc_price_position candle =
     (let rng = c_high candle - c_low candle
      in if rng = 0 then 50
         else ((c_close candle - c_low candle) / rng) * 100)"

definition calc_momentum_3h :: "candle list \<Rightarrow> real \<Rightarrow> real" where
  "calc_momentum_3h candles current_price =
     (if length candles < 3 then 0
      else (let three_ago = c_close (candles ! (length candles - 3))
            in if three_ago = 0 then 0
               else ((current_price - three_ago) / three_ago) * 100))"

definition calc_hour_return :: "candle \<Rightarrow> real \<Rightarrow> real" where
  "calc_hour_return candle current_price =
     (if c_open candle = 0 then 0
      else ((current_price - c_open candle) / c_open candle) * 100)"

definition STRIKE_INCREMENT :: int where
  "STRIKE_INCREMENT = 250"

definition calc_strike :: "real \<Rightarrow> string \<Rightarrow> int" where
  "calc_strike btc_price strike_type =
     (if strike_type = ''ATM''
      then py_round (btc_price / real_of_int STRIKE_INCREMENT) * STRIKE_INCREMENT
      else \<lfloor>btc_price / real_of_int STRIKE_INCREMENT\<rfloor> * STRIKE_INCREMENT)"

text \<open>
  The dictionary returned by \<open>check_conservative\<close> and \<open>check_aggressive\<close>; the nested
  dictionaries \<open>checks\<close> and \<open>values\<close> keep their keys, in the order of the source.
\<close>

record signal_result =
  signal :: bool
  sig_strike :: "int option"
  sig_entry_price :: real
  sig_contracts :: int
  checks :: "(string \<times> bool) list"
  sig_values :: "(string \<times> real) list"

definition check_conservative ::
  "candle list \<Rightarrow> real \<Rightarrow> int \<Rightarrow> real \<Rightarrow> py_error + signal_result" where
  "check_conservative candles current_price hour_utc min_strike_distance =
     (if candles = [] then Inl IndexError
      else
       (let is_market = (14 \<le> hour_utc \<and> hour_utc < 21);
            sma3 = calc_sma candles 3;
            sma6 = calc_sma candles 6;
            sma12 = calc_sma candles 12;
            vol = calc_volatility (last candles);
            pos = calc_price_position (last candles);
            short_trend = (sma3 > sma6 \<or> (sma6 > 0 \<and> (sma6 - sma3) / sma6 < 0.001));
            medium_trend = (sma6 > sma12);
            vol_ok = (0.5 \<le> vol \<and> vol \<le> 2.0);
            strong = (pos > 60);
            strike = calc_strike current_price ''OTM'';
            distance_to_strike = current_price - real_of_int strike;
            strike_ok = (distance_to_strike \<ge> min_strike_distance);
            passed = (is_market \<and> short_trend \<and> medium_trend \<and> vol_ok \<and> strong \<and> strike_ok)
        in Inr \<lparr>signal = passed,
                sig_strike = (if passed then Some strike else None),
                sig_entry_price = 0.60,
                sig_contracts = \<lfloor>10 / 0.60 :: real\<rfloor>,
                checks = [(''market_hours'', is_market), (''short_trend'', short_trend),
                          (''medium_trend'', medium_trend), (''volatility'', vol_ok),
                          (''position'', strong), (''strike_distance'', strike_ok)],
                sig_values = [(''sma3'', sma3), (''sma6'', sma6), (''sma12'', sma12),
                              (''vol'', vol), (''pos'', pos),
                              (''strike_dist'', distance_to_strike)]\<rparr>))"

definition check_aggressive ::
  "candle list \<Rightarrow> real \<Rightarrow> int \<Rightarrow> real \<Rightarrow> py_error + signal_result" where
  "check_aggressive candles current_price hour_utc min_strike_distance =
     (if candles = [] then Inl IndexError
      else
       (let is_market = (14 \<le> hour_utc \<and> hour_utc < 21);
            sma3 = calc_sma candles 3;
            sma6 = calc_sma candles 6;
            sma12 = calc_sma candles 12;
            mom = calc_momentum_3h candles current_price;
            hr = calc_hour_return (last candles) current_price;
            short_trend = (sma3 > sma6 \<or> (sma6 > 0 \<and> (sma6 - sma3) / sma6 < 0.001));
            medium_trend = (sma6 > sma12);
            strong_mom = (mom > 1.0);
            hour_up = (hr > 0.3);
            strike = calc_strike current_price ''OTM'';
            distance_to_strike = current_price - real_of_int strike;
            strike_ok = (distance_to_strike \<ge> min_strike_distance);
            passed = (is_market \<and> short_trend \<and> medium_trend \<and> strong_mom \<and> hour_up \<and> strike_ok)
        in Inr \<lparr>signal = passed,
                sig_strike = (if passed then Some strike else None),
                sig_entry_price = 0.40,
                sig_contracts = \<lfloor>20 / 0.40 :: real\<rfloor>,
                checks = [(''market_hours'', is_market), (''short_trend'', short_trend),
                          (''medium_trend'', medium_trend), (''momentum'', strong_mom),
                          (''hour_return'', hour_up), (''strike_distance'', strike_ok)],
                sig_values = [(''sma3'', sma3), (''sma6'', sma6), (''sma12'', sma12),
                              (''mom'', mom), (''hr'', hr),
                              (''strike_dist'', distance_to_strike)]\<rparr>))"

text \<open>
  Whether a strategy function fires: it returns a dictionary whose \<open>signal\<close> is true.
\<close>

definition fires ::
  "(candle list \<Rightarrow> real \<Rightarrow> int \<Rightarrow> real \<Rightarrow> py_error + signal_result)
     \<Rightarrow> candle list \<Rightarrow> real \<Rightarrow> int \<Rightarrow> real \<Rightarrow> bool" where
  "fires fn candles current_price hour_utc min_strike_distance =
     (case fn candles current_price hour_utc min_strike_distance of
        Inl e \<Rightarrow> False
      | Inr sig \<Rightarrow> signal sig)"

text \<open>
  The hour of \<open>datetime.fromtimestamp(open_time / 1000, tz=timezone.utc)\<close> for a
  timestamp in milliseconds (one that \<open>datetime\<close> can represent).
\<close>

definition hour_utc_of :: "int \<Rightarrow> int" where
  "hour_utc_of ms = (ms div 3600000) mod 24"

text \<open>
  The signal counter of \<open>run_backtest\<close> for one strategy \<open>fn\<close> with its
  \<open>min_strike_dist\<close>: the loop over \<open>range(12, len(candles) - 1)\<close>, keeping only the
  \<open>signals\<close> count of the results.  An error of the strategy function ends the run.
\<close>

fun signals_loop ::
  "(candle list \<Rightarrow> real \<Rightarrow> int \<Rightarrow> real \<Rightarrow> py_error + signal_result)
     \<Rightarrow> real \<Rightarrow> candle list \<Rightarrow> nat list \<Rightarrow> nat \<Rightarrow> py_error + nat" where
  "signals_loop fn min_strike_dist candles [] signals = Inr signals"
| "signals_loop fn min_strike_dist candles (i # rest) signals =
     (let candle = candles ! i;
          hour_utc = hour_utc_of (open_time candle);
          current_price = c_close candle;
          history = py_slice candles (i - 12) (i + 1)
      in case fn history current_price hour_utc min_strike_dist of
           Inl e \<Rightarrow> Inl e
         | Inr sig \<Rightarrow>
             signals_loop fn min_strike_dist candles rest
               (if signal sig then signals + 1 else signals))"

definition run_backtest_signals ::
  "(candle list \<Rightarrow> real \<Rightarrow> int \<Rightarrow> real \<Rightarrow> py_error + signal_result)
     \<Rightarrow> real \<Rightarrow> candle list \<Rightarrow> py_error + nat" where
  "run_backtest_signals fn min_strike_dist candles =
     signals_loop fn min_strike_dist candles [12 ..< length candles - 1] 0"

section \<open>Grouping 5-minute candles into 15-minute windows (backtest\_interwindow.py)\<close>

text \<open>
  A record of the historical data file, with its keys \<open>t\<close> (milliseconds), \<open>o\<close>,
  \<open>h\<close>, \<open>l\<close>, \<open>c\<close>, \<open>v\<close>, and a window as \<open>group_15min_windows\<close> builds it.
\<close>

record raw_candle =
  k_t :: int
  k_o :: real
  k_h :: real
  k_l :: real
  k_c :: real
  k_v :: real

record window =
  ts :: int
  w_open :: real
  w_close :: real
  w_candles :: "raw_candle list"
  avg_vol :: real
  bb_width_proxy :: real

text \<open>The key of a candle's bucket: the start of its 15-minute window, in seconds.\<close>

definition window_start_of :: "raw_candle \<Rightarrow> int" where
  "window_start_of c =
     (let ts_s = k_t c div 1000
      in (ts_s div (15 * 60)) * (15 * 60))"

text \<open>
  \<open>buckets[window_start].append(c)\<close> on the \<open>defaultdict(list)\<close>, kept as an association
  list in insertion order: a new key is added at the end with the one-element list.
\<close>

fun bucket_append ::
  "int \<Rightarrow> raw_candle \<Rightarrow> (int \<times> raw_candle list) list \<Rightarrow> (int \<times> raw_candle list) list" where
  "bucket_append k c [] = [(k, [c])]"
| "bucket_append k c ((k', cs) # bs) =
     (if k = k' then (k', cs @ [c]) # bs else (k', cs) # bucket_append k c bs)"

definition build_buckets :: "raw_candle list \<Rightarrow> (int \<times> raw_candle list) list" where
  "build_buckets candles = fold (\<lambda>c buckets. bucket_append (window_start_of c) c buckets) candles []"

text \<open>The body of the second loop for one bucket: a window, or nothing.\<close>

definition window_of_bucket :: "int \<Rightarrow> raw_candle list \<Rightarrow> window list" where
  "window_of_bucket ws bucket =
     (let cs = sort_key k_t bucket
      in if length cs = 3
         then (let volumes = map k_v cs;
                   avg_vol' = sum_list volumes / real (length volumes);
                   all_closes = map k_c cs;
                   all_opens = map k_o cs;
                   prices = all_opens @ all_closes;
                   price_range = Max (set prices) - Min (set prices);
                   mid_close = k_c (cs ! 1);
                   bb = (if mid_close > 0 then price_range / mid_close else 0)
               in [\<lparr>ts = ws, w_open = k_o (cs ! 0), w_close = k_c (cs ! 2), w_candles = cs,
                     avg_vol = avg_vol', bb_width_proxy = bb\<rparr>])
         else [])"

text \<open>
  The loop over \<open>sorted(buckets.keys())\<close> visits the buckets in the order of their
  keys, which are pairwise different; here the pairs are sorted by key.
\<close>

definition group_15min_windows :: "raw_candle list \<Rightarrow> window list" where
  "group_15min_windows candles =
     (let buckets = build_buckets candles
      in concat (map (\<lambda>(ws, bucket). window_of_bucket ws bucket) (sort_key fst buckets)))"

section \<open>The conservative experiment with ruin tracking (experiment\_conservative.py)\<close>

text \<open>
  The \<open>params\<close> dictionary of an experiment, with every key that \<open>build_experiments\<close>
  sets.  \<open>None\<close> values and keys tested with \<open>in\<close> are options.
\<close>

record params =
  strike_type :: string
  edge_cushion :: real
  max_entry_cap :: "real option"
  use_exit_logic :: bool
  position_size :: real
  vol_filter :: string
  pos_filter :: string
  sma_looseness :: "real option"
  min_strike_distance :: real
  min_time_remaining :: real
  min_probability :: real
  max_probability :: "real option"

text \<open>
  \<open>estimate_fair_value\<close> of experiment\_conservative.py: a lookup table, unlike the
  function of the same name in backtest\_combined.py.
\<close>

definition estimate_fair_value_bucketed :: "real \<Rightarrow> real \<Rightarrow> real \<Rightarrow> real \<Rightarrow> real" where
  "estimate_fair_value_bucketed price strike vol mins_remaining =
     (if vol \<le> 0 \<or> mins_remaining \<le> 0 then (if price > strike then 1.0 else 0.0)
      else (let distance = price - strike;
                time_hours = mins_remaining / 60;
                expected_move = price * (vol / 100) * sqrt (max time_hours 0.01);
                z = (if expected_move > 0 then distance / expected_move else 0)
            in if z \<le> -3 then 0.001
               else if z \<le> -2 then 0.02
               else if z \<le> -1 then 0.16
               else if z \<le> -0.5 then 0.31
               else if z \<le> 0 then 0.50
               else if z \<le> 0.5 then 0.69
               else if z \<le> 1 then 0.84
               else if z \<le> 1.5 then 0.93
               else if z \<le> 2 then 0.98
               else 0.99))"

text \<open>
  The dictionary returned by \<open>check_signal\<close>: \<open>None\<close> stands for \<open>{"signal": False}\<close>,
  \<open>Some\<close> for a dictionary whose \<open>signal\<close> is true, with its other keys.
\<close>

record entry_signal =
  es_strike :: int
  es_entry_price :: real
  es_contracts :: int
  es_fair_value :: real
  es_volatility :: real

definition check_signal :: "candle list \<Rightarrow> real \<Rightarrow> real \<Rightarrow> params \<Rightarrow> entry_signal option" where
  "check_signal candles current_price minute ps =
     (let mins_remaining = 60 - minute
      in if mins_remaining \<le> min_time_remaining ps then None
      else
      (let sma3 = calc_sma candles 3;
           sma6 = calc_sma candles 6;
           sma12 = calc_sma candles 12
       in if sma3 = 0 \<or> sma6 = 0 \<or> sma12 = 0 then None
       else
       (let vol = calc_volatility (last candles);
            pos = calc_price_position (last candles);
            short_trend =
              (case sma_looseness ps of
                 None \<Rightarrow> True
               | Some sma_loose \<Rightarrow>
                   if sma_loose = 0 then sma3 > sma6
                   else sma3 > sma6 \<or> (sma6 > 0 \<and> (sma6 - sma3) / sma6 < sma_loose));
            medium_trend =
              (case sma_looseness ps of
                 None \<Rightarrow> True
               | Some sma_loose \<Rightarrow>
                   if sma_loose = 0 then sma6 > sma12
                   else sma6 > sma12 \<or> (sma12 > 0 \<and> (sma12 - sma6) / sma12 < sma_loose))
        in if \<not> short_trend \<or> \<not> medium_trend then None
        else if vol_filter ps = ''0.5-2'' \<and> \<not> (0.5 \<le> vol \<and> vol \<le> 2.0) then None
        else if vol_filter ps = ''0.3-2.5'' \<and> \<not> (0.3 \<le> vol \<and> vol \<le> 2.5) then None
        else if vol_filter ps = ''0.5-1.5'' \<and> \<not> (0.5 \<le> vol \<and> vol \<le> 1.5) then None
        else if vol_filter ps = ''0.3-3'' \<and> \<not> (0.3 \<le> vol \<and> vol \<le> 3.0) then None
        else if vol_filter ps = ''0.5-3'' \<and> \<not> (0.5 \<le> vol \<and> vol \<le> 3.0) then None
        else if pos_filter ps = ''>40'' \<and> pos \<le> 40 then None
        else if pos_filter ps = ''>50'' \<and> pos \<le> 50 then None
        else if pos_filter ps = ''>60'' \<and> pos \<le> 60 then None
        else if pos_filter ps = ''>70'' \<and> pos \<le> 70 then None
        else
        (let strike = calc_strike current_price (strike_type ps);
             strike_dist = current_price - real_of_int strike
         in if strike_dist < min_strike_distance ps then None
         else
         (let fv = estimate_fair_value_bucketed current_price (real_of_int strike) vol mins_remaining
          in if fv < min_probability ps then None
          else if (case max_probability ps of None \<Rightarrow> False | Some mp \<Rightarrow> fv > mp) then None
          else
          (let max_entry0 = real_of_int \<lfloor>fv * edge_cushion ps * 100\<rfloor> / 100;
               max_entry = (case max_entry_cap ps of
                              None \<Rightarrow> max_entry0
                            | Some cap \<Rightarrow> min max_entry0 cap)
           in if max_entry > 0.95 then None
           else
           (let contracts = (if max_entry > 0 then \<lfloor>position_size ps / max_entry\<rfloor> else 0)
            in if contracts \<le> 0 then None
               else Some \<lparr>es_strike = strike, es_entry_price = max_entry,
                           es_contracts = contracts, es_fair_value = fv,
                           es_volatility = vol\<rparr>)))))))"

text \<open>
  \<open>simulate_trade\<close> of experiment\_conservative.py, with its \<open>use_exit_logic\<close> switch
  and the single outcome \<open>early_exit\<close> for the three exits.  It returns the keys
  \<open>outcome\<close> and \<open>pnl\<close> only.
\<close>

definition settle_trade :: "real \<Rightarrow> real \<Rightarrow> int \<Rightarrow> real \<Rightarrow> trade_result" where
  "settle_trade entry_price strike contracts settle_price =
     (if settle_price > strike
      then \<lparr>outcome = ''win'', pnl = calc_net_pnl contracts entry_price 1.0 ''settlement'',
            settlement_price = None, exit_reason = None\<rparr>
      else \<lparr>outcome = ''loss'', pnl = calc_net_pnl contracts entry_price 0.0 ''settlement'',
            settlement_price = None, exit_reason = None\<rparr>)"

definition early_exit_result :: "real \<Rightarrow> trade_result" where
  "early_exit_result exit_pnl =
     \<lparr>outcome = ''early_exit'', pnl = exit_pnl, settlement_price = None, exit_reason = None\<rparr>"

definition simulate_trade_exit_switch ::
  "real \<Rightarrow> real \<Rightarrow> int \<Rightarrow> candle list \<Rightarrow> real \<Rightarrow> bool \<Rightarrow> trade_result" where
  "simulate_trade_exit_switch entry_price strike contracts candles_after volatility exit_logic =
     (case candles_after of
        [] \<Rightarrow> \<lparr>outcome = ''no_data'', pnl = 0, settlement_price = None, exit_reason = None\<rparr>
      | settlement_candle # _ \<Rightarrow>
         (let settle_price = c_close settlement_candle
          in if \<not> exit_logic then settle_trade entry_price strike contracts settle_price
             else
             (let mid_price = (c_open settlement_candle + c_close settlement_candle) / 2;
                  distance_mid = mid_price - strike;
                  ror = calc_risk_of_ruin mid_price strike volatility 30;
                  implied_price = estimate_contract_price distance_mid 30;
                  early_exit_pnl = calc_net_pnl contracts entry_price implied_price ''early'';
                  settle_win_pnl = calc_net_pnl contracts entry_price 1.0 ''settlement'';
                  settle_lose_pnl = calc_net_pnl contracts entry_price 0.0 ''settlement'';
                  settle_ev = (1 - ror) * settle_win_pnl + ror * settle_lose_pnl
              in if ror \<ge> 0.5 then early_exit_result early_exit_pnl
                 else if settle_ev < early_exit_pnl \<and> early_exit_pnl > 0
                 then early_exit_result early_exit_pnl
                 else
                 (let late_price = c_close settlement_candle;
                      late_ror = calc_risk_of_ruin late_price strike volatility 10
                  in if late_ror \<ge> 0.3
                     then (let late_implied = estimate_contract_price (late_price - strike) 10;
                               late_exit_pnl =
                                 calc_net_pnl contracts entry_price late_implied ''early'';
                               late_settle_ev =
                                 (1 - late_ror) * settle_win_pnl + late_ror * settle_lose_pnl
                           in if late_settle_ev \<le> late_exit_pnl * 1.2
                              then early_exit_result late_exit_pnl
                              else settle_trade entry_price strike contracts settle_price)
                     else settle_trade entry_price strike contracts settle_price))))"

text \<open>The local variables of \<open>run_variant\<close>, as they stand between two iterations.\<close>

record variant_state =
  trades :: int
  wins :: int
  losses :: int
  early_exits :: int
  total_pnl :: real
  max_dd :: real
  peak_pnl :: real
  bankroll :: real
  peak_bank :: real
  min_bankroll :: real
  ruin_hit :: bool
  losing_streak :: int
  max_losing_streak :: int

definition run_variant_init :: variant_state where
  "run_variant_init =
     \<lparr>trades = 0, wins = 0, losses = 0, early_exits = 0, total_pnl = 0.0, max_dd = 0.0,
      peak_pnl = 0.0, bankroll = 100.0, peak_bank = 100.0, min_bankroll = 100.0,
      ruin_hit = False, losing_streak = 0, max_losing_streak = 0\<rparr>"

text \<open>
  The bookkeeping after a trade that produced data: the part of the loop body after
  \<open>if result["outcome"] == "no_data": continue\<close>.
\<close>

definition record_trade :: "trade_result \<Rightarrow> variant_state \<Rightarrow> variant_state" where
  "record_trade result st =
     (let pnl' = pnl result;
          st1 = st\<lparr>trades := trades st + 1, total_pnl := total_pnl st + pnl',
                   bankroll := bankroll st + pnl'\<rparr>;
          st2 = (if sublist ''early_exit'' (outcome result)
                 then st1\<lparr>early_exits := early_exits st1 + 1\<rparr> else st1);
          st3 = (if pnl' \<ge> 0
                 then st2\<lparr>wins := wins st2 + 1, losing_streak := 0\<rparr>
                 else (let st2' = st2\<lparr>losses := losses st2 + 1,
                                        losing_streak := losing_streak st2 + 1\<rparr>
                       in if losing_streak st2' > max_losing_streak st2'
                          then st2'\<lparr>max_losing_streak := losing_streak st2'\<rparr> else st2'));
          st4 = (if total_pnl st3 > peak_pnl st3 then st3\<lparr>peak_pnl := total_pnl st3\<rparr> else st3);
          dd = peak_pnl st4 - total_pnl st4;
          st5 = (if dd > max_dd st4 then st4\<lparr>max_dd := dd\<rparr> else st4);
          st6 = (if bankroll st5 > peak_bank st5 then st5\<lparr>peak_bank := bankroll st5\<rparr> else st5)
      in if bankroll st6 < min_bankroll st6 then st6\<lparr>min_bankroll := bankroll st6\<rparr> else st6)"

text \<open>One iteration of the loop of \<open>run_variant\<close>, at index \<open>i\<close>.\<close>

definition run_variant_step :: "candle list \<Rightarrow> params \<Rightarrow> nat \<Rightarrow> variant_state \<Rightarrow> variant_state" where
  "run_variant_step candles ps i st =
     (let candle = candles ! i;
          current_price = c_close candle;
          history = py_slice candles (i - 12) (i + 1)
      in case check_signal history current_price 30 ps of
           None \<Rightarrow> st
         | Some sig \<Rightarrow>
             if bankroll st < position_size ps * 0.5 then st\<lparr>ruin_hit := True\<rparr>
             else (let result = simulate_trade_exit_switch (es_entry_price sig)
                                  (real_of_int (es_strike sig)) (es_contracts sig)
                                  (py_slice candles (i + 1) (i + 3)) (es_volatility sig)
                                  (use_exit_logic ps)
                   in if outcome result = ''no_data'' then st
                      else record_trade result st))"

text \<open>The state after the loop over \<open>range(12, len(candles) - 1)\<close>.\<close>

definition run_variant_loop :: "candle list \<Rightarrow> params \<Rightarrow> variant_state" where
  "run_variant_loop candles ps =
     fold (run_variant_step candles ps) [12 ..< length candles - 1] run_variant_init"

text \<open>The dictionary returned by \<open>run_variant\<close>.\<close>

record variant_result =
  r_trades :: int
  r_wins :: int
  r_losses :: int
  r_win_rate :: real
  r_total_pnl :: real
  r_max_dd :: real
  r_expectancy :: real
  r_early_exits :: int
  r_final_bankroll :: real
  r_min_bankroll :: real
  r_ruin_hit :: bool
  r_max_losing_streak :: int
  r_calmar :: real

definition run_variant :: "candle list \<Rightarrow> params \<Rightarrow> variant_result" where
  "run_variant candles ps =
     (let st = run_variant_loop candles ps;
          wr = (if trades st > 0 then real_of_int (wins st) / real_of_int (trades st) * 100 else 0);
          expectancy = (if trades st > 0 then total_pnl st / real_of_int (trades st) else 0);
          calmar = (if max_dd st > 0 then total_pnl st / max_dd st
                    else (if total_pnl st > 0 then 999 else 0))
      in \<lparr>r_trades = trades st, r_wins = wins st, r_losses = losses st, r_win_rate = wr,
          r_total_pnl = total_pnl st, r_max_dd = max_dd st, r_expectancy = expectancy,
          r_early_exits = early_exits st, r_final_bankroll = bankroll st,
          r_min_bankroll = min_bankroll st, r_ruin_hit = ruin_hit st,
          r_max_losing_streak = max_losing_streak st, r_calmar = calmar\<rparr>)"

text \<open>Whether \<open>check_signal\<close> fires at index \<open>i\<close> of the loop of \<open>run_variant\<close>.\<close>

definition fires_at :: "candle list \<Rightarrow> params \<Rightarrow> nat \<Rightarrow> bool" where
  "fires_at candles ps i =
     (check_signal (py_slice candles (i - 12) (i + 1)) (c_close (candles ! i)) 30 ps \<noteq> None)"

section \<open>Synthetic price paths (backtest.py)\<close>

text \<open>
  \<open>random.seed(seed)\<close> fixes the sequence of values that the later calls of the
  \<open>random\<close> module return.  The model takes that sequence as data: \<open>uniforms\<close> holds the
  values of \<open>random.random()\<close>, which lie in \<open>[0, 1)\<close>, and \<open>normals\<close> the standard
  normal deviates that \<open>random.gauss\<close> scales; the two positions count the values
  consumed.  A statement for every such pair of sequences covers every seed.
\<close>

record rng =
  uniforms :: "nat \<Rightarrow> real"
  u_pos :: nat
  normals :: "nat \<Rightarrow> real"
  n_pos :: nat

definition py_random :: "rng \<Rightarrow> real \<times> rng" where
  "py_random g = (uniforms g (u_pos g), g\<lparr>u_pos := u_pos g + 1\<rparr>)"

text \<open>\<open>random.uniform(a, b)\<close> is \<open>a + (b - a) * random()\<close>.\<close>

definition py_uniform :: "real \<Rightarrow> real \<Rightarrow> rng \<Rightarrow> real \<times> rng" where
  "py_uniform a b g = (let (u, g') = py_random g in (a + (b - a) * u, g'))"

text \<open>\<open>random.gauss(mu, sigma)\<close> is \<open>mu + z * sigma\<close> for the next normal deviate \<open>z\<close>.\<close>

definition py_gauss :: "real \<Rightarrow> real \<Rightarrow> rng \<Rightarrow> real \<times> rng" where
  "py_gauss mu sigma g = (mu + normals g (n_pos g) * sigma, g\<lparr>n_pos := n_pos g + 1\<rparr>)"

text \<open>
  \<open>random.choices(population, weights=weights, k=1)[0]\<close>: the running sums of the
  weights, one value of \<open>random()\<close> scaled by their total, and the position of that
  value among the first \<open>n - 1\<close> sums (\<open>bisect\<close> on a sorted list counts the sums that
  are at most the value).
\<close>

fun py_accumulate :: "real \<Rightarrow> real list \<Rightarrow> real list" where
  "py_accumulate acc [] = []"
| "py_accumulate acc (w # ws) = (acc + w) # py_accumulate (acc + w) ws"

definition py_bisect :: "real list \<Rightarrow> real \<Rightarrow> nat \<Rightarrow> nat" where
  "py_bisect cum x hi = length (takeWhile (\<lambda>c. c \<le> x) (take hi cum))"

definition py_choices :: "'a list \<Rightarrow> real list \<Rightarrow> rng \<Rightarrow> 'a \<times> rng" where
  "py_choices population weights g =
     (let cum_weights = py_accumulate 0 weights;
          total = last cum_weights;
          hi = length population - 1;
          (u, g') = py_random g
      in (population ! py_bisect cum_weights (u * total) hi, g'))"

text \<open>
  \<open>round(x, 2)\<close>: the nearest multiple of 0.01, a tie to the even one (on the exact value
  of \<open>x\<close>).
\<close>

definition py_round2 :: "real \<Rightarrow> real" where
  "py_round2 x = real_of_int (py_round (x * 100)) / 100"

datatype regime = bull_trend | strong_bull | ranging | bear_trend | selloff | recovery

text \<open>The dictionary \<open>regimes\<close>: drift per hour, volatility multiplier, name.\<close>

fun regimes :: "regime \<Rightarrow> real \<times> real \<times> string" where
  "regimes bull_trend = (0.0004, 0.8, ''bull'')"
| "regimes strong_bull = (0.0008, 1.2, ''strong_bull'')"
| "regimes ranging = (0.0000, 0.6, ''range'')"
| "regimes bear_trend = (-0.0003, 1.0, ''bear'')"
| "regimes selloff = (-0.0010, 2.0, ''selloff'')"
| "regimes recovery = (0.0006, 1.5, ''recovery'')"

definition regime_names :: "regime list" where
  "regime_names = [bull_trend, strong_bull, ranging, bear_trend, selloff, recovery]"

text \<open>The transition weights chosen from the current regime.\<close>

fun transition_weights :: "regime \<Rightarrow> real list" where
  "transition_weights bull_trend = [0.25, 0.15, 0.35, 0.15, 0.05, 0.05]"
| "transition_weights strong_bull = [0.25, 0.15, 0.35, 0.15, 0.05, 0.05]"
| "transition_weights ranging = [0.25, 0.10, 0.30, 0.20, 0.05, 0.10]"
| "transition_weights bear_trend = [0.15, 0.05, 0.30, 0.25, 0.10, 0.15]"
| "transition_weights selloff = [0.10, 0.05, 0.15, 0.20, 0.20, 0.30]"
| "transition_weights recovery = [0.30, 0.15, 0.25, 0.15, 0.05, 0.10]"

definition base_hourly_vol :: real where
  "base_hourly_vol = 0.009"

text \<open>
  \<open>int(datetime(2025, 2, 11, 0, 0, tzinfo=timezone.utc).timestamp() * 1000)\<close>.
\<close>

definition start_ts :: int where
  "start_ts = 1739232000000"

text \<open>The variables of the generator's loop that live across iterations.\<close>

record gen_state =
  g_price :: real
  g_regime :: regime
  g_duration :: int
  g_rng :: rng
  g_candles :: "candle list"

text \<open>
  The loop body, block by block as the source comments divide it.  Regime switching: the
  duration counts up, and with a probability that grows with it a new regime is drawn
  from the weights of the current one.
\<close>

definition switch_regime :: "regime \<Rightarrow> int \<Rightarrow> rng \<Rightarrow> regime \<times> int \<times> rng" where
  "switch_regime current_regime regime_duration0 g =
     (let regime_duration = regime_duration0 + 1;
          (u, g1) = py_random g
      in if u < 0.02 + real_of_int regime_duration / 500
         then (let weights = transition_weights current_regime;
                   (chosen, g2) = py_choices regime_names weights g1
               in (chosen, 0, g2))
         else (current_regime, regime_duration, g1))"

text \<open>The return with fat tails: a 5\% chance of a three times wider Gaussian.\<close>

definition draw_return :: "real \<Rightarrow> real \<Rightarrow> rng \<Rightarrow> real \<times> rng" where
  "draw_return drift hourly_vol g =
     (let (u, g1) = py_random g
      in if u < 0.05 then py_gauss drift (hourly_vol * 3) g1
         else py_gauss drift hourly_vol g1)"

text \<open>The high and low before the OHLC constraints are enforced.\<close>

definition draw_high_low ::
  "real \<Rightarrow> real \<Rightarrow> real \<Rightarrow> real \<Rightarrow> rng \<Rightarrow> real \<times> real \<times> rng" where
  "draw_high_low open_price close_price ret hourly_vol g =
     (let (u, g1) = py_uniform 0.3 1.5 g;
          intra_vol = \<bar>ret\<bar> + hourly_vol * u
      in if close_price \<ge> open_price
         then (let (up, g2) = py_uniform 0 (intra_vol * 0.5) g1;
                   high = max open_price close_price * (1 + up);
                   (down, g3) = py_uniform 0 (intra_vol * 0.3) g2;
                   low = min open_price close_price * (1 - down)
               in (high, low, g3))
         else (let (up, g2) = py_uniform 0 (intra_vol * 0.3) g1;
                   high = max open_price close_price * (1 + up);
                   (down, g3) = py_uniform 0 (intra_vol * 0.5) g2;
                   low = min open_price close_price * (1 - down)
               in (high, low, g3)))"

text \<open>The gentle pull of the price toward the centre.\<close>

definition mean_reversion :: "real \<Rightarrow> real" where
  "mean_reversion price =
     (if price > 80000 then price * 0.9999
      else if price < 20000 then price * 1.0001
      else price)"

text \<open>One iteration of the loop, for the hour \<open>h\<close>.\<close>

definition gen_step :: "int \<Rightarrow> gen_state \<Rightarrow> gen_state" where
  "gen_step h st =
     (let (current_regime, regime_duration, g1) =
             switch_regime (g_regime st) (g_duration st) (g_rng st);
          (drift, vol_mult, name) = regimes current_regime;
          hourly_vol = base_hourly_vol * vol_mult;
          (ret, g2) = draw_return drift hourly_vol g1;
          open_price = g_price st;
          close_price = open_price * (1 + ret);
          (high0, low0, g3) = draw_high_low open_price close_price ret hourly_vol g2;
          high = max high0 (max open_price close_price);
          low = min low0 (min open_price close_price);
          ts = start_ts + (h * 3600 * 1000);
          (vol_draw, g4) = py_uniform 500 5000 g3;
          candle = \<lparr>open_time = ts, c_open = py_round2 open_price, c_high = py_round2 high,
                     c_low = py_round2 low, c_close = py_round2 close_price,
                     c_volume = py_round2 vol_draw, close_time = ts + 3599999\<rparr>
      in \<lparr>g_price = mean_reversion close_price, g_regime = current_regime,
          g_duration = regime_duration, g_rng = g4, g_candles = g_candles st @ [candle]\<rparr>)"

definition gen_init :: "rng \<Rightarrow> gen_state" where
  "gen_init g = \<lparr>g_price = 42000.0, g_regime = bull_trend, g_duration = 0, g_rng = g,
                  g_candles = []\<rparr>"

text \<open>
  \<open>generate_realistic_btc_data(days, seed)\<close>, with the seeded generator as \<open>g\<close>.  After
  the loop over \<open>range(days * 24)\<close> the function prints \<open>candles[0]\<close>, which raises
  \<open>IndexError\<close> when the loop has produced no candle.
\<close>

definition generate_realistic_btc_data :: "int \<Rightarrow> rng \<Rightarrow> py_error + candle list" where
  "generate_realistic_btc_data days g =
     (let hours = days * 24;
          st = fold gen_step (map int [0 ..< nat hours]) (gen_init g);
          candles = g_candles st
      in if candles = [] then Inl IndexError else Inr candles)"

text \<open>The invariant of a candle.\<close>

definition candle_ok :: "candle \<Rightarrow> bool" where
  "candle_ok c \<longleftrightarrow>
     c_high c \<ge> max (c_open c) (c_close c)
   \<and> c_low c \<le> min (c_open c) (c_close c)
   \<and> c_volume c \<ge> 0"

section \<open>IEEE double arithmetic and the fee computation in doubles (backtest.py)\<close>

text \<open>
  Python's \<open>float\<close> is the IEEE 754 binary64 format.  A finite double is modelled as the
  real number it denotes.  The exponent of a real \<open>x\<close> is \<open>\<lfloor>log\<^sub>2 \<bar>x\<bar>\<rfloor>\<close>, and not below
  \<open>-1022\<close>: the subnormal numbers share the exponent of the smallest normal ones.  Two
  neighbouring doubles with the exponent \<open>e\<close> are \<open>2 ^ (e - 52)\<close> apart.
\<close>

definition f64_exponent :: "real \<Rightarrow> int" where
  "f64_exponent x = max (- 1022) \<lfloor>log 2 \<bar>x\<bar>\<rfloor>"

definition f64_ulp :: "real \<Rightarrow> real" where
  "f64_ulp x = 2 powi (f64_exponent x - 52)"

text \<open>
  Rounding to the nearest double, a tie to the one with the even significand (the
  exponent is not bounded above here; \<open>f64_of_real\<close> detects the overflow).
\<close>

definition f64_round :: "real \<Rightarrow> real" where
  "f64_round x = (if x = 0 then 0 else real_of_int (py_round (x / f64_ulp x)) * f64_ulp x)"

text \<open>
  The double an exact result is delivered as.  \<open>None\<close> stands for a result that is not a
  finite double: the rounded value is \<open>2 ^ 1024\<close> or more in magnitude, where Python
  yields \<open>inf\<close> (or raises \<open>OverflowError\<close> when it converts an \<open>int\<close>).
\<close>

definition f64_of_real :: "real \<Rightarrow> real option" where
  "f64_of_real x = (let r = f64_round x in if \<bar>r\<bar> < 2 ^ 1024 then Some r else None)"

text \<open>The conversion of an \<open>int\<close> operand of a mixed \<open>int * float\<close> product.\<close>

definition f64_of_int :: "int \<Rightarrow> real option" where
  "f64_of_int n = f64_of_real (real_of_int n)"

text \<open>The operations \<open>*\<close>, \<open>+\<close> and \<open>-\<close> on doubles: the exact result, rounded.\<close>

definition f64_mul :: "real option \<Rightarrow> real option \<Rightarrow> real option" where
  "f64_mul a b = (case (a, b) of (Some x, Some y) \<Rightarrow> f64_of_real (x * y) | _ \<Rightarrow> None)"

definition f64_add :: "real option \<Rightarrow> real option \<Rightarrow> real option" where
  "f64_add a b = (case (a, b) of (Some x, Some y) \<Rightarrow> f64_of_real (x + y) | _ \<Rightarrow> None)"

definition f64_sub :: "real option \<Rightarrow> real option \<Rightarrow> real option" where
  "f64_sub a b = (case (a, b) of (Some x, Some y) \<Rightarrow> f64_of_real (x - y) | _ \<Rightarrow> None)"

text \<open>The subexpression \<open>TAKER_FEE_PCT / 100\<close>: the quotient of the doubles 1.5 and 100.\<close>

definition fee_rate_f64 :: "real option" where
  "fee_rate_f64 = f64_of_real (TAKER_FEE_PCT / 100)"

text \<open>
  \<open>calc_net_pnl\<close> of backtest.py with every operation rounded as Python rounds it;
  \<open>contracts\<close> is an \<open>int\<close>, the two prices are doubles.
\<close>

definition calc_net_pnl_f64 :: "int \<Rightarrow> real \<Rightarrow> real \<Rightarrow> string \<Rightarrow> real option" where
  "calc_net_pnl_f64 contracts entry_price exit_price exit_type =
     (let entry_cost = f64_mul (f64_of_int contracts) (Some entry_price);
          entry_fee = f64_mul entry_cost fee_rate_f64;
          total_entry_cost = f64_add entry_cost entry_fee;
          exit_revenue = f64_mul (f64_of_int contracts) (Some exit_price)
      in if exit_type = ''early''
         then (let exit_fee = f64_mul exit_revenue fee_rate_f64
               in f64_sub (f64_sub exit_revenue exit_fee) total_entry_cost)
         else f64_sub exit_revenue total_entry_cost)"

text \<open>
  Names for the intermediate values of \<open>calc_net_pnl\<close>, used to state its fee structure:
  the notional \<open>contracts * price\<close> (the entry cost and the exit revenue) and the fee
  \<open>notional * (TAKER_FEE_PCT / 100)\<close> charged on it.
\<close>

definition entry_cost_f64 :: "int \<Rightarrow> real \<Rightarrow> real option" where
  "entry_cost_f64 contracts entry_price = f64_mul (f64_of_int contracts) (Some entry_price)"

definition taker_fee_f64 :: "real option \<Rightarrow> real option" where
  "taker_fee_f64 notional = f64_mul notional fee_rate_f64"

text \<open>
  The expression \<open>contracts * entry * 1.5 / 100\<close> as Python evaluates it, from left to
  right.
\<close>

definition claimed_fee_f64 :: "int \<Rightarrow> real \<Rightarrow> real option" where
  "claimed_fee_f64 contracts entry_price =
     (case f64_mul (f64_mul (f64_of_int contracts) (Some entry_price)) (Some 1.5) of
        Some v \<Rightarrow> f64_of_real (v / 100)
      | None \<Rightarrow> None)"

section \<open>Sample data\<close>

text \<open>
  A thirteen-hour history on which both deployed signals fire at 15:00 UTC: eleven flat
  candles at 49000, a rise to 50000, and a last candle closing at 50400, which is 150
  above its strike 50250.
\<close>

definition sample_flat :: candle where
  "sample_flat = \<lparr>open_time = 0, c_open = 49000, c_high = 49000, c_low = 49000,
     c_close = 49000, c_volume = 1000, close_time = 3599999\<rparr>"

definition sample_rise :: candle where
  "sample_rise = \<lparr>open_time = 50400000, c_open = 49000, c_high = 50000, c_low = 49000,
     c_close = 50000, c_volume = 1000, close_time = 53999999\<rparr>"

definition sample_last :: candle where
  "sample_last = \<lparr>open_time = 54000000, c_open = 50000, c_high = 50500, c_low = 50000,
     c_close = 50400, c_volume = 1000, close_time = 57599999\<rparr>"

definition sample_history :: "candle list" where
  "sample_history = [sample_flat, sample_flat, sample_flat, sample_flat, sample_flat,
     sample_flat, sample_flat, sample_flat, sample_flat, sample_flat, sample_flat,
     sample_rise, sample_last]"

text \<open>
  Five 5-minute candles, out of order: three in the window starting at second 0 and two
  in the window starting at second 900.
\<close>

definition sample_5min :: "raw_candle list" where
  "sample_5min =
     [\<lparr>k_t = 0, k_o = 100, k_h = 102, k_l = 99, k_c = 101, k_v = 10\<rparr>,
      \<lparr>k_t = 900000, k_o = 103, k_h = 104, k_l = 102, k_c = 104, k_v = 7\<rparr>,
      \<lparr>k_t = 300000, k_o = 101, k_h = 103, k_l = 100, k_c = 102, k_v = 12\<rparr>,
      \<lparr>k_t = 600000, k_o = 102, k_h = 105, k_l = 101, k_c = 103, k_v = 8\<rparr>,
      \<lparr>k_t = 1200000, k_o = 104, k_h = 106, k_l = 103, k_c = 105, k_v = 9\<rparr>]"

text \<open>
  A path on which \<open>run_variant\<close> trades once and is ruined at the next signal: the
  sample history, a candle that dips to 50240 (below the strike 50250 of the first trade,
  above its own strike 50000), and two more candles.  The parameters are the baseline
  with a lower probability threshold, no exit logic and a position size of 150, so that
  the first loss takes the bankroll from 100 to below the threshold 75.
\<close>

definition sample_dip :: candle where
  "sample_dip = \<lparr>open_time = 57600000, c_open = 50400, c_high = 50400, c_low = 49900,
     c_close = 50240, c_volume = 1000, close_time = 61199999\<rparr>"

definition sample_ruin_params :: params where
  "sample_ruin_params =
     \<lparr>strike_type = ''OTM'', edge_cushion = 0.95, max_entry_cap = None, use_exit_logic = False,
      position_size = 150, vol_filter = ''0.5-2'', pos_filter = ''>60'',
      sma_looseness = Some 0.001, min_strike_distance = 50, min_time_remaining = 10,
      min_probability = 0.60, max_probability = None\<rparr>"

definition sample_ruin_path :: "candle list" where
  "sample_ruin_path = sample_history @ [sample_dip, sample_last, sample_last]"

definition sample_history_dip :: "candle list" where
  "sample_history_dip = [sample_flat, sample_flat, sample_flat, sample_flat, sample_flat,
     sample_flat, sample_flat, sample_flat, sample_flat, sample_flat,
     sample_rise, sample_last, sample_dip]"

text \<open>
  A seeded generator whose uniform values are all 1/2 and whose normal deviates are all 0.
\<close>

definition sample_rng :: rng where
  "sample_rng = \<lparr>uniforms = (\<lambda>n. 1 / 2), u_pos = 0, normals = (\<lambda>n. 0), n_pos = 0\<rparr>"

section \<open>Fee structure of a single trade\<close>

subsection \<open>Rounding to a double\<close>

lemma two_powr_int: "2 powr real_of_int e = (2::real) powi e"
  by (simp add: powr_real_of_int')

lemma f64_exponent_eq:
  assumes "2 powi e \<le> \<bar>x\<bar>" "\<bar>x\<bar> < 2 powi (e + 1)" "- 1022 \<le> e"
  shows "f64_exponent x = e"
proof -
  have p: "(0::real) < 2 powi e" by simp
  have x0: "0 < \<bar>x\<bar>" using assms(1) p by linarith
  have "2 powr real_of_int e \<le> \<bar>x\<bar>" using assms(1) by (simp only: two_powr_int)
  then have lo: "real_of_int e \<le> log 2 \<bar>x\<bar>"
    using x0 by (subst le_log_iff) auto
  have "\<bar>x\<bar> < 2 powr real_of_int (e + 1)" using assms(2) by (simp only: two_powr_int)
  then have hi: "log 2 \<bar>x\<bar> < real_of_int (e + 1)"
    using x0 by (subst log_less_iff) auto
  from lo hi have "\<lfloor>log 2 \<bar>x\<bar>\<rfloor> = e" by (simp add: floor_eq_iff)
  then show ?thesis using assms(3) by (simp add: f64_exponent_def)
qed

lemma f64_round_eval:
  assumes "2 powi e \<le> \<bar>x\<bar>" "\<bar>x\<bar> < 2 powi (e + 1)" "- 1022 \<le> e"
  shows "f64_round x = real_of_int (py_round (x / 2 powi (e - 52))) * 2 powi (e - 52)"
proof -
  have p: "(0::real) < 2 powi e" by simp
  have "0 < \<bar>x\<bar>" using assms(1) p by linarith
  then have "x \<noteq> 0" by auto
  then show ?thesis
    by (simp add: f64_round_def f64_ulp_def f64_exponent_eq [OF assms])
qed

lemma py_round_error: "\<bar>real_of_int (py_round q) - q\<bar> \<le> 1 / 2"
proof -
  have "real_of_int \<lfloor>q\<rfloor> \<le> q" "q < real_of_int \<lfloor>q\<rfloor> + 1" by linarith+
  then show ?thesis by (auto simp: py_round_def Let_def abs_le_iff)
qed

lemma f64_round_rel_error:
  assumes "2 powi (- 1022) \<le> \<bar>x\<bar>"
  shows "\<bar>f64_round x - x\<bar> \<le> 2 powi (- 53) * \<bar>x\<bar>"
proof -
  have p: "(0::real) < 2 powi (- 1022)" by simp
  have x0: "0 < \<bar>x\<bar>" using assms p by linarith
  then have xn: "x \<noteq> 0" by auto
  define e where "e = \<lfloor>log 2 \<bar>x\<bar>\<rfloor>"
  have "2 powr real_of_int (- 1022) \<le> \<bar>x\<bar>" using assms by (simp only: two_powr_int)
  then have "real_of_int (- 1022) \<le> log 2 \<bar>x\<bar>" using x0 by (subst le_log_iff) auto
  then have e_lo: "- 1022 \<le> e" unfolding e_def by (simp add: le_floor_iff)
  have "real_of_int e \<le> log 2 \<bar>x\<bar>" unfolding e_def by simp
  then have "2 powr real_of_int e \<le> \<bar>x\<bar>" using x0 by (subst (asm) le_log_iff) auto
  then have e_le: "2 powi e \<le> \<bar>x\<bar>" by (simp only: two_powr_int)
  have ex: "f64_exponent x = e" using e_lo by (simp add: f64_exponent_def e_def)
  define ulp where "ulp = (2::real) powi (e - 52)"
  have ulp0: "0 < ulp" by (simp add: ulp_def)
  have r: "f64_round x = real_of_int (py_round (x / ulp)) * ulp"
    using xn by (simp add: f64_round_def f64_ulp_def ex ulp_def)
  have "f64_round x - x = (real_of_int (py_round (x / ulp)) - x / ulp) * ulp"
    using ulp0 by (simp add: r algebra_simps)
  then have "\<bar>f64_round x - x\<bar> = \<bar>real_of_int (py_round (x / ulp)) - x / ulp\<bar> * ulp"
    using ulp0 by (simp add: abs_mult)
  also have "\<dots> \<le> (1 / 2) * ulp"
    using py_round_error [of "x / ulp"] ulp0 by (intro mult_right_mono) auto
  also have "(1 / 2) * ulp = 2 powi (- 53) * 2 powi e"
    by (simp add: ulp_def power_int_diff power_int_minus field_simps)
  also have "\<dots> \<le> 2 powi (- 53) * \<bar>x\<bar>"
    using e_le by (intro mult_left_mono) auto
  finally show ?thesis .
qed

lemma f64_of_real_normal:
  assumes "2 powi (- 1022) \<le> \<bar>x\<bar>" "\<bar>x\<bar> \<le> 2 powi 1023"
  shows "\<exists>r. f64_of_real x = Some r \<and> \<bar>r - x\<bar> \<le> 2 powi (- 53) * \<bar>x\<bar>"
proof -
  have e: "\<bar>f64_round x - x\<bar> \<le> 2 powi (- 53) * \<bar>x\<bar>"
    using assms(1) by (rule f64_round_rel_error)
  have "\<bar>f64_round x\<bar> \<le> \<bar>x\<bar> + \<bar>f64_round x - x\<bar>" by linarith
  also have "\<dots> \<le> \<bar>x\<bar> + 2 powi (- 53) * \<bar>x\<bar>" using e by simp
  also have "\<dots> = (1 + 2 powi (- 53)) * \<bar>x\<bar>" by (simp add: algebra_simps)
  also have "\<dots> \<le> (1 + 2 powi (- 53)) * 2 powi 1023"
    using assms(2) by (intro mult_left_mono) auto
  also have "\<dots> < 2 * 2 powi 1023"
    by (intro mult_strict_right_mono) (simp_all add: power_int_minus)
  also have "\<dots> = 2 ^ 1024" by simp
  finally have "\<bar>f64_round x\<bar> < 2 ^ 1024" .
  then show ?thesis using e by (simp add: f64_of_real_def Let_def)
qed

lemma f64_of_real_eval:
  assumes "2 powi e \<le> \<bar>x\<bar>" "\<bar>x\<bar> < 2 powi (e + 1)" "- 1022 \<le> e" "e \<le> 1022"
  shows "f64_of_real x = Some (real_of_int (py_round (x / 2 powi (e - 52))) * 2 powi (e - 52))"
proof -
  have "2 powi (- 1022) \<le> (2::real) powi e"
    using assms(3) by (intro power_int_increasing) auto
  then have lo: "2 powi (- 1022) \<le> \<bar>x\<bar>" using assms(1) by linarith
  have "(2::real) powi (e + 1) \<le> 2 powi 1023"
    using assms(4) by (intro power_int_increasing) auto
  then have hi: "\<bar>x\<bar> \<le> 2 powi 1023" using assms(2) by linarith
  from f64_of_real_normal [OF lo hi] obtain r where "f64_of_real x = Some r" by blast
  then have "f64_of_real x = Some (f64_round x)"
    by (auto simp: f64_of_real_def Let_def split: if_splits)
  then show ?thesis by (simp add: f64_round_eval [OF assms(1,2,3)])
qed

lemma f64_round_six_tenths: "f64_round 0.6 = 5404319552844595 / 2 ^ 53"
  by (subst f64_round_eval [where e = "-1"]) (simp_all add: py_round_def Let_def power_int_minus)

lemma f64_of_int_16: "f64_of_int 16 = Some 16"
  unfolding f64_of_int_def
  by (subst f64_of_real_eval [where e = 4]) (simp_all add: py_round_def Let_def power_int_minus)

lemma fee_rate_f64_value: "fee_rate_f64 = Some (1080863910568919 / 2 ^ 56)"
  unfolding fee_rate_f64_def TAKER_FEE_PCT_def
  by (subst f64_of_real_eval [where e = "-7"]) (simp_all add: py_round_def Let_def power_int_minus)

lemma entry_cost_f64_sample: "entry_cost_f64 16 (5404319552844595 / 2 ^ 53) = Some (5404319552844595 / 2 ^ 49)"
  unfolding entry_cost_f64_def f64_mul_def f64_of_int_16
  apply simp
  by (subst f64_of_real_eval [where e = 3]) (simp_all add: py_round_def Let_def power_int_minus)


lemma f64_ops_Some:
  "f64_mul (Some x) (Some y) = f64_of_real (x * y)"
  "f64_add (Some x) (Some y) = f64_of_real (x + y)"
  "f64_sub (Some x) (Some y) = f64_of_real (x - y)"
  by (simp_all add: f64_mul_def f64_add_def f64_sub_def)

lemma taker_fee_f64_sample: "taker_fee_f64 (Some (5404319552844595 / 2 ^ 49)) = Some (5188146770730811 / 2 ^ 55)"
  unfolding taker_fee_f64_def fee_rate_f64_value f64_ops_Some
  by (subst f64_of_real_eval [where e = "-3"]) (simp_all add: py_round_def Let_def power_int_minus)

lemma total_entry_cost_f64_sample:
  "f64_add (Some (5404319552844595 / 2 ^ 49)) (Some (5188146770730811 / 2 ^ 55))
     = Some (342836521633579 / 2 ^ 45)"
  unfolding f64_ops_Some
  by (subst f64_of_real_eval [where e = 3]) (simp_all add: py_round_def Let_def power_int_minus)

lemma net_f64_sample:
  "f64_sub (Some (5404319552844595 / 2 ^ 49)) (Some (342836521633579 / 2 ^ 45))
     = Some (- (81064793292669 / 2 ^ 49))"
  unfolding f64_ops_Some
  by (subst f64_of_real_eval [where e = "-3"]) (simp_all add: py_round_def Let_def power_int_minus)

lemma claimed_fee_f64_sample:
  "claimed_fee_f64 16 (5404319552844595 / 2 ^ 53) = Some (5188146770730811 / 2 ^ 55)"
proof -
  have 1: "f64_mul (f64_of_int 16) (Some (5404319552844595 / 2 ^ 53)) = Some (5404319552844595 / 2 ^ 49)"
    using entry_cost_f64_sample by (simp add: entry_cost_f64_def)
  have 2: "f64_mul (Some (5404319552844595 / 2 ^ 49)) (Some 1.5) = Some (2026619832316723 / 2 ^ 47)"
    unfolding f64_ops_Some
    by (subst f64_of_real_eval [where e = 3]) (simp_all add: py_round_def Let_def power_int_minus)
  have 3: "f64_of_real (2026619832316723 / 2 ^ 47 / 100) = Some (5188146770730811 / 2 ^ 55)"
    by (subst f64_of_real_eval [where e = "-3"]) (simp_all add: py_round_def Let_def power_int_minus)
  show ?thesis unfolding claimed_fee_f64_def 1 2 using 3 by simp
qed

lemma calc_net_pnl_f64_sample:
  "calc_net_pnl_f64 16 (5404319552844595 / 2 ^ 53) (5404319552844595 / 2 ^ 53) ''settlement''
     = Some (- (81064793292669 / 2 ^ 49))"
proof -
  have 1: "f64_mul (f64_of_int 16) (Some (5404319552844595 / 2 ^ 53)) = Some (5404319552844595 / 2 ^ 49)"
    using entry_cost_f64_sample by (simp add: entry_cost_f64_def)
  have 2: "f64_mul (Some (5404319552844595 / 2 ^ 49)) fee_rate_f64 = Some (5188146770730811 / 2 ^ 55)"
    using taker_fee_f64_sample by (simp add: taker_fee_f64_def)
  show ?thesis
    unfolding calc_net_pnl_f64_def Let_def 1 2 total_entry_cost_f64_sample
    using net_f64_sample by simp
qed

lemma f64_of_real_pos_range:
  assumes "2 powi a \<le> x" "x \<le> 2 powi b" "- 1022 \<le> a" "b \<le> 1023"
  shows "\<exists>r. f64_of_real x = Some r \<and> \<bar>r - x\<bar> \<le> 2 powi (- 53) * x
           \<and> 2 powi (a - 1) \<le> r \<and> r \<le> 2 powi (b + 1)"
proof -
  have pa: "(0::real) < 2 powi a" by simp
  then have x0: "0 < x" using assms(1) by linarith
  have "2 powi (- 1022) \<le> (2::real) powi a"
    using assms(3) by (intro power_int_increasing) auto
  then have lo: "2 powi (- 1022) \<le> \<bar>x\<bar>" using assms(1) x0 by linarith
  have "(2::real) powi b \<le> 2 powi 1023"
    using assms(4) by (intro power_int_increasing) auto
  then have hi: "\<bar>x\<bar> \<le> 2 powi 1023" using assms(2) x0 by linarith
  from f64_of_real_normal [OF lo hi] obtain r where
    r: "f64_of_real x = Some r" "\<bar>r - x\<bar> \<le> 2 powi (- 53) * \<bar>x\<bar>" by blast
  have u: "(2::real) powi (- 53) \<le> 1 / 2" by (simp add: power_int_minus)
  have "2 powi (- 53) * x \<le> (1 / 2) * x" using u x0 by (intro mult_right_mono) auto
  then have e: "\<bar>r - x\<bar> \<le> x / 2" using r(2) x0 by simp
  have "2 powi (a - 1) = (2::real) powi a / 2" by (simp add: power_int_diff)
  then have 1: "2 powi (a - 1) \<le> r" using e assms(1) by linarith
  have "2 powi (b + 1) = 2 * (2::real) powi b" by (simp add: power_int_add)
  then have 2: "r \<le> 2 powi (b + 1)" using e assms(2) by linarith
  from r x0 1 2 show ?thesis by auto
qed

lemma fee_rounding_analysis:
  fixes x k f t u :: real
  assumes x: "0 < x" and u: "0 \<le> u" "u \<le> 1 / 1024" and k: "1 / 128 \<le> k" "k \<le> 1 / 64"
    and f: "\<bar>f - x * k\<bar> \<le> u * (x * k)" and t: "\<bar>t - (x + f)\<bar> \<le> u * (x + f)"
  shows "x / 256 \<le> t - x \<and> t - x \<le> x \<and> t - x \<le> x + f \<and> 0 < f \<and> f \<le> x"
proof -
  define p where "p = x * k"
  have k1: "x / 128 \<le> p" unfolding p_def using x k(1) by (simp add: field_simps)
  have k2: "p \<le> x / 64" unfolding p_def using x k(2) by (simp add: field_simps)
  have "u * p \<le> (1 / 1024) * p"
    using u(2) k1 x by (intro mult_right_mono) auto
  then have f1: "\<bar>f - p\<bar> \<le> p / 1024" using f by (simp add: p_def)
  have f0: "0 < f" using f1 k1 x by argo
  have "u * (x + f) \<le> (1 / 1024) * (x + f)"
    using u(2) f0 x by (intro mult_right_mono) auto
  then have t1: "\<bar>t - (x + f)\<bar> \<le> (x + f) / 1024" using t by simp
  have 1: "x / 256 \<le> t - x" using f1 t1 k1 x by argo
  have 2: "t - x \<le> x" using f1 t1 k2 x by argo
  have 3: "t - x \<le> x + f" using f1 t1 k2 x f0 by argo
  have 4: "f \<le> x" using f1 k2 x by argo
  from 1 2 3 4 f0 show ?thesis by blast
qed

lemma py_round_of_int: "py_round (real_of_int m) = m"
  by (simp add: py_round_def Let_def)

lemma f64_of_int_exact:
  assumes "1 \<le> n" "n \<le> 2 ^ 53"
  shows "f64_of_int n = Some (real_of_int n)"
proof (cases "n = 2 ^ 53")
  case True
  show ?thesis unfolding f64_of_int_def True
    by (subst f64_of_real_eval [where e = 53]) (simp_all add: py_round_def Let_def)
next
  case False
  define x where "x = real_of_int n"
  have x1: "1 \<le> x" using assms(1) by (simp add: x_def)
  have "n < 2 ^ 53" using False assms(2) by simp
  then have "x < real_of_int (2 ^ 53)" unfolding x_def by (simp only: of_int_less_iff)
  then have x2: "x < 2 ^ 53" by simp
  define e where "e = \<lfloor>log 2 x\<rfloor>"
  have "0 \<le> log 2 x" using x1 by simp
  then have e0: "0 \<le> e" by (simp add: e_def)
  have "x < 2 powr 53" using x2 by simp
  then have "log 2 x < 53" using x1 by (subst log_less_iff) auto
  then have "e < 53" unfolding e_def by (simp add: floor_less_iff)
  then have e52: "e \<le> 52" by simp
  have "real_of_int e \<le> log 2 x" unfolding e_def by simp
  then have "2 powr real_of_int e \<le> x" using x1 by (subst (asm) le_log_iff) auto
  then have "2 powi e \<le> x" by (simp only: two_powr_int)
  then have lo: "2 powi e \<le> \<bar>x\<bar>" using x1 by simp
  have "log 2 x < real_of_int (e + 1)" unfolding e_def by linarith
  then have "x < 2 powr real_of_int (e + 1)" using x1 by (subst (asm) log_less_iff) auto
  then have "x < 2 powi (e + 1)" by (simp only: two_powr_int)
  then have hi: "\<bar>x\<bar> < 2 powi (e + 1)" using x1 by simp
  have r: "f64_of_real x = Some (real_of_int (py_round (x / 2 powi (e - 52))) * 2 powi (e - 52))"
    using e0 e52 by (intro f64_of_real_eval lo hi) auto
  define m where "m = nat (52 - e)"
  have m: "e - 52 = - int m" using e52 by (simp add: m_def)
  have q: "x / 2 powi (e - 52) = real_of_int (n * 2 ^ m)"
    unfolding m x_def by (simp add: power_int_minus field_simps)
  have "real_of_int (py_round (x / 2 powi (e - 52))) * 2 powi (e - 52) = x"
    unfolding q py_round_of_int unfolding m x_def by (simp add: power_int_minus field_simps)
  then show ?thesis unfolding f64_of_int_def x_def [symmetric] r by simp
qed

lemma fee_total_error:
  fixes X x k f t r u :: real
  assumes X: "0 < X" and u: "0 \<le> u" "u \<le> 1 / 1024"
    and x: "\<bar>x - X\<bar> \<le> u * X"
    and k: "\<bar>k - 3 / 200\<bar> \<le> u * (3 / 200)"
    and f: "\<bar>f - x * k\<bar> \<le> u * (x * k)"
    and t: "\<bar>t - (x + f)\<bar> \<le> u * (x + f)"
    and r: "\<bar>r - (x - t)\<bar> \<le> u * \<bar>x - t\<bar>"
  shows "\<bar>r + X * 3 / 200\<bar> \<le> 4 * u * X"
proof -
  define a where "a = u * X"
  define b where "b = u * x"
  define p where "p = x * k"
  have a0: "0 \<le> a" unfolding a_def using u(1) X by simp
  have "u * X \<le> (1 / 1024) * X" using u(2) X by (intro mult_right_mono) auto
  then have a1: "a \<le> X / 1024" by (simp add: a_def)
  have xa: "\<bar>x - X\<bar> \<le> a" using x by (simp add: a_def)
  have x0: "0 < x" using xa a1 X by argo
  have "u * x \<le> u * (X + a)" using xa u(1) by (intro mult_left_mono) auto
  moreover have "u * a \<le> (1 / 1024) * a" using u(2) a0 by (intro mult_right_mono) auto
  ultimately have b1: "b \<le> a + a / 1024" by (simp add: b_def a_def algebra_simps)
  have b0: "0 \<le> b" unfolding b_def using u(1) x0 by simp
  have "u * x \<le> (1 / 1024) * x" using u(2) x0 by (intro mult_right_mono) auto
  then have b2: "b \<le> x / 1024" by (simp add: b_def)
  have "p - x * (3 / 200) = x * (k - 3 / 200)" by (simp add: p_def algebra_simps)
  then have "\<bar>p - x * (3 / 200)\<bar> = x * \<bar>k - 3 / 200\<bar>" using x0 by (simp add: abs_mult)
  also have "\<dots> \<le> x * (u * (3 / 200))" using k x0 by (intro mult_left_mono) auto
  also have "\<dots> = b * (3 / 200)" by (simp add: b_def)
  finally have pe: "\<bar>p - x * (3 / 200)\<bar> \<le> b * (3 / 200)" .
  have p64: "p \<le> x / 64" using pe b2 x0 by argo
  have "u * p \<le> u * (x / 64)" using p64 u(1) by (intro mult_left_mono) auto
  then have up: "u * p \<le> b / 64" by (simp add: b_def)
  have fe: "\<bar>f - p\<bar> \<le> b / 64" using f up by (simp add: p_def)
  have f2: "x + f \<le> 2 * x" using fe pe p64 b2 b0 x0 by argo
  have "u * (x + f) \<le> u * (2 * x)" using f2 u(1) by (intro mult_left_mono) auto
  then have "u * (x + f) \<le> 2 * b" by (simp add: b_def)
  then have te: "\<bar>t - (x + f)\<bar> \<le> 2 * b" using t by simp
  have d: "\<bar>x - t\<bar> \<le> x" using te fe pe p64 b2 b0 x0 by argo
  have "u * \<bar>x - t\<bar> \<le> u * x" using d u(1) by (intro mult_left_mono) auto
  then have re: "\<bar>r - (x - t)\<bar> \<le> b" using r by (simp add: b_def)
  have "\<bar>r + X * 3 / 200\<bar> \<le> 4 * a" using re te fe pe xa b1 a0 by argo
  then show ?thesis by (simp add: a_def)
qed

subsection \<open>The fee-only trade\<close>

text \<open>
  C3, as stated, fails in double arithmetic.  With 16 contracts entered and settled at
  the double nearest to 0.6, the entry cost is 9.6, the entry fee 0.144 and the total
  entry cost 9.744 (each the nearest double), and \<open>9.6 - 9.744\<close> is the double
  \<open>-0.14400000000000013\<close>, which is \<open>- 81064793292669 / 2 ^ 49\<close>.  The entry fee
  computed on the way, and the expression \<open>contracts * entry * 1.5 / 100\<close>, are both the
  double \<open>0.144\<close>, which is \<open>5188146770730811 / 2 ^ 55\<close>; the result is minus neither of
  them, nor minus the exact product.
\<close>

theorem calc_net_pnl_exact_fee_counterexample:
  "(1::int) \<le> 16 \<and> 0 < f64_round 0.6
   \<and> calc_net_pnl_f64 16 (f64_round 0.6) (f64_round 0.6) ''settlement''
       = Some (- (81064793292669 / 2 ^ 49))
   \<and> taker_fee_f64 (entry_cost_f64 16 (f64_round 0.6)) = Some (5188146770730811 / 2 ^ 55)
   \<and> claimed_fee_f64 16 (f64_round 0.6) = Some (5188146770730811 / 2 ^ 55)
   \<and> - (81064793292669 / 2 ^ 49) \<noteq> - (5188146770730811 / 2 ^ 55 :: real)
   \<and> - (81064793292669 / 2 ^ 49) \<noteq> - (real_of_int 16 * f64_round 0.6 * 1.5 / 100)"
proof -
  have 0: "0 < f64_round 0.6" unfolding f64_round_six_tenths by simp
  have 1: "calc_net_pnl_f64 16 (f64_round 0.6) (f64_round 0.6) ''settlement''
     = Some (- (81064793292669 / 2 ^ 49))"
    unfolding f64_round_six_tenths by (rule calc_net_pnl_f64_sample)
  have 2: "taker_fee_f64 (entry_cost_f64 16 (f64_round 0.6)) = Some (5188146770730811 / 2 ^ 55)"
    unfolding f64_round_six_tenths entry_cost_f64_sample by (rule taker_fee_f64_sample)
  have 3: "claimed_fee_f64 16 (f64_round 0.6) = Some (5188146770730811 / 2 ^ 55)"
    unfolding f64_round_six_tenths by (rule claimed_fee_f64_sample)
  have 4: "- (81064793292669 / 2 ^ 49) \<noteq> - (5188146770730811 / 2 ^ 55 :: real)"
    by simp
  have 5: "- (81064793292669 / 2 ^ 49) \<noteq> - (real_of_int 16 * f64_round 0.6 * 1.5 / 100)"
    unfolding f64_round_six_tenths by simp
  from 0 1 2 3 4 5 show ?thesis by simp
qed

text \<open>
  C3, amended.  For every number of contracts from 1 to \<open>2 ^ 53\<close> and every entry price
  from \<open>2 ^ -900\<close> to \<open>2 ^ 900\<close> (so that no intermediate result overflows or becomes
  subnormal), a settlement exit at the entry price returns a finite double that is
  strictly negative and is minus the entry fee up to rounding: it differs from minus the
  entry fee computed on the way by at most \<open>2 ^ -52\<close> times the total entry cost, and
  from minus the exact product \<open>contracts * entry * 1.5 / 100\<close> by at most \<open>2 ^ -51\<close>
  times \<open>contracts * entry\<close>.  In general the result is the exit revenue, less an exit
  fee only when the exit type is \<open>early\<close>, minus the entry cost with the entry fee,
  which is charged on every trade.
\<close>

theorem calc_net_pnl_f64_fee_structure:
  assumes "1 \<le> contracts" "contracts \<le> 2 ^ 53" "2 powi (- 900) \<le> entry" "entry \<le> 2 powi 900"
  shows "(\<exists>cost fee net.
            entry_cost_f64 contracts entry = Some cost
          \<and> taker_fee_f64 (entry_cost_f64 contracts entry) = Some fee
          \<and> calc_net_pnl_f64 contracts entry entry ''settlement'' = Some net
          \<and> net < 0
          \<and> \<bar>net + fee\<bar> \<le> 2 powi (- 52) * (cost + fee)
          \<and> \<bar>net + real_of_int contracts * entry * 1.5 / 100\<bar>
              \<le> 2 powi (- 51) * (real_of_int contracts * entry))
       \<and> calc_net_pnl_f64 contracts entry exit_price exit_type
           = f64_sub
               (if exit_type = ''early''
                then f64_sub (entry_cost_f64 contracts exit_price)
                       (taker_fee_f64 (entry_cost_f64 contracts exit_price))
                else entry_cost_f64 contracts exit_price)
               (f64_add (entry_cost_f64 contracts entry)
                  (taker_fee_f64 (entry_cost_f64 contracts entry)))"
proof -
  define u where "u = (2::real) powi (- 53)"
  have u0: "0 \<le> u" and u1: "u \<le> 1 / 1024"
    by (simp_all add: u_def power_int_minus)
  \<comment> \<open>the contract count as a double\<close>
  have "2 powi 0 \<le> real_of_int contracts" "real_of_int contracts \<le> 2 powi 53"
    using assms(1,2) by simp_all
  from f64_of_real_pos_range [OF this] obtain c where
    c: "f64_of_int contracts = Some c" "2 powi (- 1) \<le> c" "c \<le> 2 powi 54"
    by (auto simp: f64_of_int_def)
  have c_eq: "c = real_of_int contracts"
    using f64_of_int_exact [OF assms(1,2)] c(1) by simp
  \<comment> \<open>the entry cost\<close>
  have e0: "0 < entry" using assms(3) by (smt (verit) zero_less_power_int)
  have c0: "0 < c" using c(2) by (smt (verit) zero_less_power_int)
  have "2 powi (- 1) * 2 powi (- 900) \<le> c * entry"
    using c(2) assms(3) by (intro mult_mono) auto
  then have y1: "2 powi (- 901) \<le> c * entry" by (simp add: power_int_minus)
  have "c * entry \<le> 2 powi 54 * 2 powi 900"
    using c(3) assms(4) c0 e0 by (intro mult_mono) auto
  then have y2: "c * entry \<le> 2 powi 954" by simp
  from f64_of_real_pos_range [OF y1 y2] obtain x where
    x: "f64_of_real (c * entry) = Some x" "2 powi (- 902) \<le> x" "x \<le> 2 powi 955"
      "\<bar>x - c * entry\<bar> \<le> u * (c * entry)"
    by (auto simp: u_def)
  have cost: "entry_cost_f64 contracts entry = Some x"
    by (simp add: entry_cost_f64_def c(1) f64_ops_Some x(1))
  have x0: "0 < x" using x(2) by (smt (verit) zero_less_power_int)
  \<comment> \<open>the entry fee\<close>
  define k :: real where "k = 1080863910568919 / 2 ^ 56"
  have k: "1 / 128 \<le> k" "k \<le> 1 / 64" by (simp_all add: k_def)
  have ke: "\<bar>k - 3 / 200\<bar> \<le> u * (3 / 200)"
    by (simp add: k_def u_def power_int_minus)
  have "2 powi (- 902) * 2 powi (- 7) \<le> x * k"
    using x(2) k(1) by (intro mult_mono) (auto simp: power_int_minus)
  then have p1: "2 powi (- 909) \<le> x * k" by (simp add: power_int_minus)
  have "x * k \<le> 2 powi 955 * 1"
    using x(3) k(1,2) x0 by (intro mult_mono) auto
  then have p2: "x * k \<le> 2 powi 955" by simp
  from f64_of_real_pos_range [OF p1 p2] obtain f where
    f: "f64_of_real (x * k) = Some f" "\<bar>f - x * k\<bar> \<le> u * (x * k)"
    by (auto simp: u_def)
  have fee: "taker_fee_f64 (Some x) = Some f"
    unfolding taker_fee_f64_def fee_rate_f64_value f64_ops_Some
    using f(1) unfolding k_def by simp
  \<comment> \<open>the total entry cost\<close>
  have f0: "0 < f" "f \<le> x"
  proof -
    have "\<bar>x - (x + 0)\<bar> \<le> u * (x + 0)" using u0 x0 by simp
    show "0 < f"
    proof -
      have "u * (x * k) \<le> (1 / 1024) * (x * k)"
        using u1 x0 k(1) by (intro mult_right_mono) auto
      moreover have "0 < x * k" using x0 k(1) by (intro mult_pos_pos) auto
      ultimately show ?thesis using f(2) by argo
    qed
    show "f \<le> x"
    proof -
      have "u * (x * k) \<le> (1 / 1024) * (x * k)"
        using u1 x0 k(1) by (intro mult_right_mono) auto
      moreover have "x * k \<le> x * (1 / 64)" using x0 k(2) by (intro mult_left_mono) auto
      ultimately show ?thesis using f(2) x0 by argo
    qed
  qed
  have s1: "2 powi (- 902) \<le> x + f" using x(2) f0(1) by linarith
  have "x + f \<le> 2 * 2 powi 955" using x(3) f0(2) by linarith
  then have s2: "x + f \<le> 2 powi 956" by simp
  from f64_of_real_pos_range [OF s1 s2] obtain t where
    t: "f64_of_real (x + f) = Some t" "\<bar>t - (x + f)\<bar> \<le> u * (x + f)"
    by (auto simp: u_def)
  have total: "f64_add (Some x) (Some f) = Some t"
    by (simp add: f64_ops_Some t(1))
  \<comment> \<open>the difference\<close>
  from fee_rounding_analysis [OF x0 u0 u1 k f(2) t(2)]
  have d: "x / 256 \<le> t - x" "t - x \<le> x" "t - x \<le> x + f" by auto
  have "2 powi (- 902) / 256 \<le> x / 256" using x(2) by simp
  moreover have "2 powi (- 902) / 256 = (2::real) powi (- 910)" by (simp add: power_int_minus)
  ultimately have "2 powi (- 910) \<le> t - x" using d(1) by linarith
  moreover have "2 powi (- 1022) \<le> (2::real) powi (- 910)"
    by (intro power_int_increasing) auto
  ultimately have n1: "2 powi (- 1022) \<le> \<bar>x - t\<bar>" by linarith
  have "(2::real) powi 955 \<le> 2 powi 1023" by (intro power_int_increasing) auto
  then have n2: "\<bar>x - t\<bar> \<le> 2 powi 1023" using d(1,2) x(3) x0 by linarith
  from f64_of_real_normal [OF n1 n2] obtain r where
    r: "f64_of_real (x - t) = Some r" "\<bar>r - (x - t)\<bar> \<le> u * \<bar>x - t\<bar>"
    by (auto simp: u_def)
  have tx: "\<bar>x - t\<bar> = t - x" using d(1) x0 by linarith
  have net: "calc_net_pnl_f64 contracts entry entry ''settlement'' = Some r"
    using cost fee total r(1)
    by (simp add: calc_net_pnl_f64_def Let_def entry_cost_f64_def taker_fee_f64_def f64_ops_Some)
  have r2: "\<bar>r - (x - t)\<bar> \<le> u * (t - x)" using r(2) unfolding tx .
  define q where "q = u * (t - x)"
  define q' where "q' = u * (x + f)"
  have "q \<le> (1 / 1024) * (t - x)"
    unfolding q_def using u1 d(1) x0 by (intro mult_right_mono) auto
  then have neg: "r < 0" using r2 d(1) x0 unfolding q_def [symmetric] by argo
  have "q \<le> q'" unfolding q_def q'_def using d(3) u0 by (intro mult_left_mono) auto
  then have "\<bar>r + f\<bar> \<le> q' + q'"
    using r2 t(2) unfolding q_def [symmetric] q'_def [symmetric] by argo
  then have "\<bar>r + f\<bar> \<le> u * (x + f) + u * (x + f)" unfolding q'_def .
  moreover have "u * (x + f) + u * (x + f) = 2 powi (- 52) * (x + f)"
    by (simp add: u_def power_int_minus)
  ultimately have bound: "\<bar>r + f\<bar> \<le> 2 powi (- 52) * (x + f)" by simp
  have X0: "0 < c * entry" using c0 e0 by simp
  have "\<bar>r + c * entry * 3 / 200\<bar> \<le> 4 * u * (c * entry)"
    using X0 u0 u1 x(4) ke f(2) t(2) r(2) by (rule fee_total_error)
  moreover have "4 * u = 2 powi (- 51)" by (simp add: u_def power_int_minus)
  ultimately have exact: "\<bar>r + real_of_int contracts * entry * 1.5 / 100\<bar>
      \<le> 2 powi (- 51) * (real_of_int contracts * entry)"
    by (simp add: c_eq)
  have first: "\<exists>cost fee net.
            entry_cost_f64 contracts entry = Some cost
          \<and> taker_fee_f64 (entry_cost_f64 contracts entry) = Some fee
          \<and> calc_net_pnl_f64 contracts entry entry ''settlement'' = Some net
          \<and> net < 0
          \<and> \<bar>net + fee\<bar> \<le> 2 powi (- 52) * (cost + fee)
          \<and> \<bar>net + real_of_int contracts * entry * 1.5 / 100\<bar>
              \<le> 2 powi (- 51) * (real_of_int contracts * entry)"
    using cost fee net neg bound exact by auto
  have second: "calc_net_pnl_f64 contracts entry exit_price exit_type
           = f64_sub
               (if exit_type = ''early''
                then f64_sub (entry_cost_f64 contracts exit_price)
                       (taker_fee_f64 (entry_cost_f64 contracts exit_price))
                else entry_cost_f64 contracts exit_price)
               (f64_add (entry_cost_f64 contracts entry)
                  (taker_fee_f64 (entry_cost_f64 contracts entry)))"
    by (simp add: calc_net_pnl_f64_def Let_def entry_cost_f64_def taker_fee_f64_def)
  from first second show ?thesis by blast
qed

theorem calc_net_pnl_f64_fee_structure_witness:
  "(1::int) \<le> 16 \<and> (16::int) \<le> 2 ^ 53 \<and> 2 powi (- 900) \<le> f64_round 0.6 \<and> f64_round 0.6 \<le> 2 powi 900
   \<and> (\<exists>cost fee net.
            entry_cost_f64 16 (f64_round 0.6) = Some cost
          \<and> taker_fee_f64 (entry_cost_f64 16 (f64_round 0.6)) = Some fee
          \<and> calc_net_pnl_f64 16 (f64_round 0.6) (f64_round 0.6) ''settlement'' = Some net
          \<and> net < 0
          \<and> \<bar>net + fee\<bar> \<le> 2 powi (- 52) * (cost + fee)
          \<and> \<bar>net + real_of_int 16 * f64_round 0.6 * 1.5 / 100\<bar>
              \<le> 2 powi (- 51) * (real_of_int 16 * f64_round 0.6))
   \<and> calc_net_pnl_f64 16 (f64_round 0.6) (f64_round 0.99) ''early''
           = f64_sub
               (f64_sub (entry_cost_f64 16 (f64_round 0.99)) (taker_fee_f64 (entry_cost_f64 16 (f64_round 0.99))))
               (f64_add (entry_cost_f64 16 (f64_round 0.6))
                  (taker_fee_f64 (entry_cost_f64 16 (f64_round 0.6))))"
proof -
  have h: "(1::int) \<le> 16" "(16::int) \<le> 2 ^ 53" "2 powi (- 900) \<le> f64_round 0.6"
    "f64_round 0.6 \<le> 2 powi 900"
    unfolding f64_round_six_tenths by (simp_all add: power_int_minus)
  from calc_net_pnl_f64_fee_structure [OF h, of "f64_round 0.99" "''early''"] h show ?thesis
    by simp
qed

section \<open>Resale price bounds\<close>

text \<open>
  C10.  For every distance from the strike and every \<open>minutes_remaining\<close> between 0
  and 60, \<open>estimate_contract_price\<close> lies in \<open>[0.30, 0.99]\<close>.  Without the bound
  the result can be negative: it is at distance 100 with 300 minutes remaining.
\<close>

theorem estimate_contract_price_bounds:
  "(0 \<le> m \<and> m \<le> 60 \<longrightarrow>
      0.30 \<le> estimate_contract_price d m \<and> estimate_contract_price d m \<le> 0.99)
   \<and> (\<exists>d' m'. m' > 180 \<and> d' > 0 \<and> estimate_contract_price d' m' < 0)"
proof
  show "0 \<le> m \<and> m \<le> 60 \<longrightarrow>
      0.30 \<le> estimate_contract_price d m \<and> estimate_contract_price d m \<le> 0.99"
  proof
    assume m: "0 \<le> m \<and> m \<le> 60"
    show "0.30 \<le> estimate_contract_price d m \<and> estimate_contract_price d m \<le> 0.99"
    proof (cases "d \<le> 0")
      case True
      then show ?thesis by (simp add: estimate_contract_price_def)
    next
      case False
      define base where "base = min 0.95 (0.5 + d / 1000)"
      define time_mult where "time_mult = 1 + (60 - m) / 120"
      have b: "0.5 \<le> base" using False by (simp add: base_def)
      have t: "1 \<le> time_mult" using m by (simp add: time_mult_def)
      have "0.5 * 1 \<le> base * time_mult"
        using b t by (intro mult_mono) auto
      then have "0.30 \<le> min 0.99 (base * time_mult)" by simp
      moreover have "min 0.99 (base * time_mult) \<le> 0.99" by simp
      ultimately show ?thesis
        using False by (simp add: estimate_contract_price_def Let_def base_def time_mult_def)
    qed
  qed
next
  have "estimate_contract_price 100 300 < 0"
    by (simp add: estimate_contract_price_def Let_def)
  then show "\<exists>d' m'. m' > 180 \<and> d' > 0 \<and> estimate_contract_price d' m' < 0"
    by (intro exI [of _ 100] exI [of _ 300]) simp
qed

theorem estimate_contract_price_bounds_witness:
  "0.30 \<le> estimate_contract_price 120 30 \<and> estimate_contract_price 120 30 \<le> 0.99
   \<and> estimate_contract_price 120 30 = 0.775"
proof -
  have "estimate_contract_price 120 30 = 0.775"
    by (simp add: estimate_contract_price_def Let_def)
  then show ?thesis
    using estimate_contract_price_bounds [of 30 120] by simp
qed

section \<open>The risk-of-ruin lookup\<close>

lemma ror_lookup_gt2: "2 < z \<Longrightarrow> ror_lookup z = 0.01"
  by (simp add: ror_lookup_def)

text \<open>
  Far enough above the strike (more than two full-hour expected moves) and with at most
  an hour remaining, the lookup is in its last band.
\<close>

lemma ror_far_above:
  assumes "p > 0" "v > 0" "m \<le> 60" "p - s > 2 * (p * (v / 100))"
  shows "calc_risk_of_ruin p s v m = 0.01"
proof -
  define r where "r = sqrt (max (m / 60) 0.01)"
  have r0: "0 < r" by (simp add: r_def)
  have "max (m / 60) 0.01 \<le> 1" using assms by simp
  then have "r \<le> sqrt 1" unfolding r_def by (rule real_sqrt_le_mono)
  then have r1: "r \<le> 1" by simp
  define em where "em = p * (v / 100) * r"
  have k: "0 < p * (v / 100)" using assms by simp
  have em0: "0 < em" unfolding em_def using k r0 by simp
  have "em \<le> p * (v / 100) * 1" unfolding em_def using k r1 by (intro mult_left_mono) auto
  then have "2 * em < p - s" using assms by simp
  then have z: "2 < (p - s) / em" using em0 by (simp add: pos_less_divide_eq)
  have "calc_risk_of_ruin p s v m = ror_lookup ((p - s) / em)"
    using em0 unfolding calc_risk_of_ruin_def em_def r_def Let_def by simp
  moreover have "ror_lookup ((p - s) / em) = 0.01" using z by (rule ror_lookup_gt2)
  ultimately show ?thesis by simp
qed

lemma calc_risk_of_ruin_values:
  "calc_risk_of_ruin 100 300 100 60 = 0.98"
  "calc_risk_of_ruin 100 200 100 60 = 0.84"
  "calc_risk_of_ruin 100 150 100 60 = 0.69"
  "calc_risk_of_ruin 100 100 100 60 = 0.5"
  "calc_risk_of_ruin 100 50 100 60 = 0.31"
  "calc_risk_of_ruin 100 0 100 60 = 0.16"
  "calc_risk_of_ruin 100 (-50) 100 60 = 0.07"
  "calc_risk_of_ruin 100 (-100) 100 60 = 0.02"
  "calc_risk_of_ruin 100 (-200) 100 60 = 0.01"
  by (simp_all add: calc_risk_of_ruin_def Let_def ror_lookup_def)

text \<open>
  C8, as stated, fails: the lookup has nine bands, not eight.  At price 100, volatility
  100 and 60 minutes remaining the expected move is 100, and the nine strikes below give
  the z-scores \<open>-2, -1, -0.5, 0, 0.5, 1, 1.5, 2, 3\<close> and nine pairwise different
  results, so no set of eight constants holds every result.
\<close>

theorem calc_risk_of_ruin_eight_bands_counterexample:
  "distinct [calc_risk_of_ruin 100 300 100 60, calc_risk_of_ruin 100 200 100 60,
             calc_risk_of_ruin 100 150 100 60, calc_risk_of_ruin 100 100 100 60,
             calc_risk_of_ruin 100 50 100 60, calc_risk_of_ruin 100 0 100 60,
             calc_risk_of_ruin 100 (-50) 100 60, calc_risk_of_ruin 100 (-100) 100 60,
             calc_risk_of_ruin 100 (-200) 100 60]"
  by (simp add: calc_risk_of_ruin_values)

text \<open>
  C8, amended.  The values \<open>calc_risk_of_ruin\<close> returns are exactly the nine constants
  \<open>0.98, 0.84, 0.69, 0.5, 0.31, 0.16, 0.07, 0.02, 0.01\<close>: every result is one of them and
  each of them is returned for some input.  The lookup is not the complement of the
  continuous fair value: at price = strike = 100, volatility 100 and 60 minutes remaining
  the lookup gives 0.5 and the fair value is 0.5000000005.
\<close>

theorem calc_risk_of_ruin_nine_bands:
  "range (\<lambda>(p, s, v, m). calc_risk_of_ruin p s v m)
     = {0.98, 0.84, 0.69, 0.5, 0.31, 0.16, 0.07, 0.02, 0.01}
   \<and> calc_risk_of_ruin 100 100 100 60 = 0.5
   \<and> estimate_fair_value 100 100 100 60 = 0.5000000005"
proof -
  have sub: "calc_risk_of_ruin p s v m \<in> {0.98, 0.84, 0.69, 0.5, 0.31, 0.16, 0.07, 0.02, 0.01}"
    for p s v m
    by (simp add: calc_risk_of_ruin_def Let_def ror_lookup_def)
  have att: "x \<in> range (\<lambda>(p, s, v, m). calc_risk_of_ruin p s v m)"
    if "x \<in> {0.98, 0.84, 0.69, 0.5, 0.31, 0.16, 0.07, 0.02, 0.01}" for x
  proof -
    have r: "calc_risk_of_ruin p s v m \<in> range (\<lambda>(p, s, v, m). calc_risk_of_ruin p s v m)"
      for p s v m
      by (rule image_eqI [where x = "(p, s, v, m)"]) simp_all
    from that consider "x = 0.98" | "x = 0.84" | "x = 0.69" | "x = 0.5" | "x = 0.31"
      | "x = 0.16" | "x = 0.07" | "x = 0.02" | "x = 0.01"
      by auto
    then show ?thesis
    proof cases
      case 1 then show ?thesis using r [of 100 300 100 60] by (simp only: calc_risk_of_ruin_values)
    next
      case 2 then show ?thesis using r [of 100 200 100 60] by (simp only: calc_risk_of_ruin_values)
    next
      case 3 then show ?thesis using r [of 100 150 100 60] by (simp only: calc_risk_of_ruin_values)
    next
      case 4 then show ?thesis using r [of 100 100 100 60] by (simp only: calc_risk_of_ruin_values)
    next
      case 5 then show ?thesis using r [of 100 50 100 60] by (simp only: calc_risk_of_ruin_values)
    next
      case 6 then show ?thesis using r [of 100 0 100 60] by (simp only: calc_risk_of_ruin_values)
    next
      case 7 then show ?thesis using r [of 100 "-50" 100 60] by (simp only: calc_risk_of_ruin_values)
    next
      case 8 then show ?thesis using r [of 100 "-100" 100 60] by (simp only: calc_risk_of_ruin_values)
    next
      case 9 then show ?thesis using r [of 100 "-200" 100 60] by (simp only: calc_risk_of_ruin_values)
    qed
  qed
  have "range (\<lambda>(p, s, v, m). calc_risk_of_ruin p s v m)
          = {0.98, 0.84, 0.69, 0.5, 0.31, 0.16, 0.07, 0.02, 0.01}"
  proof (rule set_eqI, rule iffI)
    fix x assume "x \<in> range (\<lambda>(p, s, v, m). calc_risk_of_ruin p s v m)"
    then obtain p s v m where "x = calc_risk_of_ruin p s v m" by auto
    then show "x \<in> {0.98, 0.84, 0.69, 0.5, 0.31, 0.16, 0.07, 0.02, 0.01}"
      using sub [of p s v m] by simp
  next
    fix x :: real assume "x \<in> {0.98, 0.84, 0.69, 0.5, 0.31, 0.16, 0.07, 0.02, 0.01}"
    then show "x \<in> range (\<lambda>(p, s, v, m). calc_risk_of_ruin p s v m)" by (rule att)
  qed
  moreover have "estimate_fair_value 100 100 100 60 = 0.5000000005"
    by (simp add: estimate_fair_value_def normal_cdf_def Let_def)
  ultimately show ?thesis by (simp add: calc_risk_of_ruin_values)
qed

section \<open>Range of the continuous fair value\<close>

lemma clamp_prob_bounds:
  "0.01 \<le> max 0.01 (min 0.99 (x::real)) \<and> max 0.01 (min 0.99 x) \<le> 0.99"
  by simp

text \<open>
  C2, as stated, fails: the hard indicator is returned not only when no time remains but
  also when the volatility is not positive.  With volatility 0 and 30 minutes remaining,
  price 100 above strike 50, the result is exactly 1.
\<close>

theorem estimate_fair_value_zero_vol_counterexample:
  "(0::real) < 30 \<and> estimate_fair_value 100 50 0 30 = 1
   \<and> \<not> estimate_fair_value 100 50 0 30 \<le> 0.99"
  by (simp add: estimate_fair_value_def)

text \<open>
  C2, amended.  When the volatility and the minutes remaining are both positive the fair
  value lies in \<open>[0.01, 0.99]\<close>, so it is neither 0 nor 1; when the volatility is at
  most 0 or the minutes remaining are at most 0 it is exactly 1 if the price is above the
  strike and exactly 0 otherwise.
\<close>

theorem estimate_fair_value_range:
  "(vol > 0 \<and> mins > 0 \<longrightarrow>
      0.01 \<le> estimate_fair_value p s vol mins \<and> estimate_fair_value p s vol mins \<le> 0.99)
   \<and> (vol \<le> 0 \<or> mins \<le> 0 \<longrightarrow>
      estimate_fair_value p s vol mins = (if p > s then 1 else 0))"
proof
  show "vol > 0 \<and> mins > 0 \<longrightarrow>
      0.01 \<le> estimate_fair_value p s vol mins \<and> estimate_fair_value p s vol mins \<le> 0.99"
  proof
    assume a: "vol > 0 \<and> mins > 0"
    define em where "em = p * (vol / 100) * sqrt (max mins 0.5 / 60)"
    show "0.01 \<le> estimate_fair_value p s vol mins \<and> estimate_fair_value p s vol mins \<le> 0.99"
    proof (cases "em \<le> 0")
      case True
      then have "estimate_fair_value p s vol mins = (if p \<ge> s then 0.99 else 0.01)"
        using a by (simp add: estimate_fair_value_def Let_def em_def)
      then show ?thesis by simp
    next
      case False
      then have "estimate_fair_value p s vol mins
                   = max 0.01 (min 0.99 (normal_cdf ((p - s) / em)))"
        using a by (simp add: estimate_fair_value_def Let_def em_def)
      then show ?thesis using clamp_prob_bounds by simp
    qed
  qed
next
  show "vol \<le> 0 \<or> mins \<le> 0 \<longrightarrow> estimate_fair_value p s vol mins = (if p > s then 1 else 0)"
    by (auto simp add: estimate_fair_value_def)
qed

theorem estimate_fair_value_range_witness:
  "0.01 \<le> estimate_fair_value 100 100 100 60 \<and> estimate_fair_value 100 100 100 60 \<le> 0.99
   \<and> estimate_fair_value 100 50 0 30 = 1 \<and> estimate_fair_value 100 150 10 0 = 0"
  using estimate_fair_value_range [of 100 60 100 100]
        estimate_fair_value_range [of 0 30 100 50]
        estimate_fair_value_range [of 10 0 100 150]
  by simp

section \<open>Outcomes of the exit engine\<close>

text \<open>
  C1.  With at least one candle after the entry, \<open>simulate_trade\<close> (a total function:
  it has no loop and raises nowhere) returns one of the five outcomes \<open>win\<close>,
  \<open>loss\<close>, \<open>early_exit_critical\<close>, \<open>early_exit_ev\<close>, \<open>early_exit_high_risk\<close>;
  when none of the three checkpoint conditions holds, the outcome is \<open>win\<close> if the
  settlement price (the close of the next candle) is strictly above the strike, and
  \<open>loss\<close> otherwise.
\<close>

theorem simulate_trade_outcome:
  assumes "candles_after = sc # rest"
  shows "outcome (simulate_trade entry_price strike contracts candles_after volatility)
          \<in> {''win'', ''loss'', ''early_exit_critical'', ''early_exit_ev'', ''early_exit_high_risk''}
      \<and> (\<not> checkpoint30_critical strike sc volatility
         \<and> \<not> checkpoint30_negative_ev entry_price strike contracts sc volatility
         \<and> \<not> checkpoint50_high_risk entry_price strike contracts sc volatility
         \<longrightarrow> outcome (simulate_trade entry_price strike contracts candles_after volatility)
               = (if c_close sc > strike then ''win'' else ''loss''))"
  unfolding simulate_trade_def hold_to_settlement_def checkpoint30_critical_def
    checkpoint30_negative_ev_def checkpoint50_high_risk_def Let_def assms
  by simp

theorem simulate_trade_outcome_witness:
  "outcome (simulate_trade 0.6 50000 16
      [\<lparr>open_time = 0, c_open = 51000, c_high = 51000, c_low = 51000, c_close = 51000,
        c_volume = 1000, close_time = 3599999\<rparr>] 0.1) = ''win''"
proof -
  define sc where "sc = \<lparr>open_time = 0, c_open = 51000, c_high = 51000, c_low = 51000,
    c_close = 51000, c_volume = 1000, close_time = 3599999\<rparr>"
  have r30: "calc_risk_of_ruin 51000 50000 0.1 30 = 0.01"
    by (rule ror_far_above) simp_all
  have r10: "calc_risk_of_ruin 51000 50000 0.1 10 = 0.01"
    by (rule ror_far_above) simp_all
  have c1: "\<not> checkpoint30_critical 50000 sc 0.1"
    by (simp add: checkpoint30_critical_def sc_def r30)
  have c2: "\<not> checkpoint30_negative_ev 0.6 50000 16 sc 0.1"
    by (simp add: checkpoint30_negative_ev_def sc_def r30 Let_def calc_net_pnl_def
        estimate_contract_price_def TAKER_FEE_PCT_def)
  have c3: "\<not> checkpoint50_high_risk 0.6 50000 16 sc 0.1"
    by (simp add: checkpoint50_high_risk_def sc_def r10 Let_def)
  have "c_close sc > 50000" by (simp add: sc_def)
  with c1 c2 c3 show ?thesis
    using simulate_trade_outcome [of "[sc]" sc "[]" "0.6" 50000 16 "0.1"]
    unfolding sc_def by simp
qed

section \<open>Strike-distance filter\<close>

lemma check_conservative_mono:
  assumes "d1 \<le> d2" "check_conservative c p h d2 = Inr r2"
  shows "\<exists>r1. check_conservative c p h d1 = Inr r1 \<and> (signal r2 \<longrightarrow> signal r1)"
  using assms unfolding check_conservative_def Let_def
  by (auto split: if_splits)

lemma check_aggressive_mono:
  assumes "d1 \<le> d2" "check_aggressive c p h d2 = Inr r2"
  shows "\<exists>r1. check_aggressive c p h d1 = Inr r1 \<and> (signal r2 \<longrightarrow> signal r1)"
  using assms unfolding check_aggressive_def Let_def
  by (auto split: if_splits)

lemma fires_mono:
  assumes "\<And>c p h r2. fn c p h d2 = Inr r2 \<Longrightarrow> \<exists>r1. fn c p h d1 = Inr r1 \<and> (signal r2 \<longrightarrow> signal r1)"
    and "fires fn c p h d2"
  shows "fires fn c p h d1"
proof -
  from assms(2) obtain r2 where r2: "fn c p h d2 = Inr r2" "signal r2"
    by (auto simp: fires_def split: sum.splits)
  from assms(1) [OF r2(1)] r2(2) show ?thesis by (auto simp: fires_def)
qed

lemma signals_loop_mono:
  assumes mono: "\<And>c p h r2. fn c p h d2 = Inr r2 \<Longrightarrow> \<exists>r1. fn c p h d1 = Inr r1 \<and> (signal r2 \<longrightarrow> signal r1)"
  shows "signals_loop fn d2 candles idx n2 = Inr m2 \<Longrightarrow> n2 \<le> n1
         \<Longrightarrow> \<exists>m1. signals_loop fn d1 candles idx n1 = Inr m1 \<and> m2 \<le> m1"
proof (induction idx arbitrary: n1 n2)
  case Nil
  then show ?case by simp
next
  case (Cons i rest)
  define hist where "hist = py_slice candles (i - 12) (i + 1)"
  define pr where "pr = c_close (candles ! i)"
  define hr where "hr = hour_utc_of (open_time (candles ! i))"
  from Cons.prems(1) obtain r2 where r2: "fn hist pr hr d2 = Inr r2"
    and rest2: "signals_loop fn d2 candles rest (if signal r2 then n2 + 1 else n2) = Inr m2"
    by (auto simp: Let_def hist_def pr_def hr_def split: sum.splits)
  from mono [OF r2] obtain r1 where r1: "fn hist pr hr d1 = Inr r1" and imp: "signal r2 \<longrightarrow> signal r1"
    by blast
  have le: "(if signal r2 then n2 + 1 else n2) \<le> (if signal r1 then n1 + 1 else n1)"
    using imp Cons.prems(2) by auto
  from Cons.IH [OF rest2 le] obtain m1 where
    "signals_loop fn d1 candles rest (if signal r1 then n1 + 1 else n1) = Inr m1" "m2 \<le> m1"
    by blast
  then show ?case using r1 by (simp add: Let_def hist_def pr_def hr_def)
qed

lemma py_slice_history_nonempty:
  assumes "i < length candles"
  shows "py_slice candles (i - 12) (i + 1) \<noteq> []"
proof -
  have "i - 12 < i + 1" "i - 12 < length candles" using assms by arith+
  then show ?thesis by (simp add: py_slice_def)
qed

lemma signals_loop_total:
  assumes ok: "\<And>c p h. c \<noteq> [] \<Longrightarrow> \<exists>r. fn c p h d = Inr r"
  shows "\<forall>i \<in> set idx. i < length candles \<Longrightarrow> \<exists>m. signals_loop fn d candles idx n = Inr m"
proof (induction idx arbitrary: n)
  case Nil
  then show ?case by simp
next
  case (Cons i rest)
  then have "i < length candles" by simp
  then have "py_slice candles (i - 12) (i + 1) \<noteq> []" by (rule py_slice_history_nonempty)
  from ok [OF this] obtain r where
    "fn (py_slice candles (i - 12) (i + 1)) (c_close (candles ! i)) (hour_utc_of (open_time (candles ! i))) d = Inr r"
    by blast
  moreover from Cons have "\<exists>m. signals_loop fn d candles rest (if signal r then n + 1 else n) = Inr m"
    by simp
  ultimately show ?case by (simp add: Let_def)
qed

lemma run_backtest_signals_total:
  assumes ok: "\<And>c p h. c \<noteq> [] \<Longrightarrow> \<exists>r. fn c p h d = Inr r"
  shows "\<exists>m. run_backtest_signals fn d candles = Inr m"
  unfolding run_backtest_signals_def
  by (rule signals_loop_total [where fn = fn and d = d, OF ok]) auto

lemma check_conservative_ok: "c \<noteq> [] \<Longrightarrow> \<exists>r. check_conservative c p h d = Inr r"
  by (simp add: check_conservative_def Let_def)

lemma check_aggressive_ok: "c \<noteq> [] \<Longrightarrow> \<exists>r. check_aggressive c p h d = Inr r"
  by (simp add: check_aggressive_def Let_def)

lemma run_backtest_signals_mono:
  assumes mono: "\<And>c p h r2. fn c p h d2 = Inr r2 \<Longrightarrow> \<exists>r1. fn c p h d1 = Inr r1 \<and> (signal r2 \<longrightarrow> signal r1)"
    and ok: "\<And>c p h. c \<noteq> [] \<Longrightarrow> \<exists>r. fn c p h d2 = Inr r"
  shows "\<exists>n1 n2. run_backtest_signals fn d1 candles = Inr n1
           \<and> run_backtest_signals fn d2 candles = Inr n2 \<and> n2 \<le> n1"
proof -
  from run_backtest_signals_total [where fn = fn and d = d2 and candles = candles, OF ok] obtain n2
    where n2: "run_backtest_signals fn d2 candles = Inr n2" by blast
  then have "signals_loop fn d2 candles [12 ..< length candles - 1] 0 = Inr n2"
    by (simp add: run_backtest_signals_def)
  from signals_loop_mono [where fn = fn and ?d2.0 = d2 and ?d1.0 = d1 and ?n1.0 = 0, OF mono this] obtain n1 where
    "signals_loop fn d1 candles [12 ..< length candles - 1] 0 = Inr n1" "n2 \<le> n1"
    by blast
  then show ?thesis using n2 by (auto simp: run_backtest_signals_def)
qed

text \<open>The sample history, evaluated.\<close>

lemma sample_sma3: "calc_sma sample_history 3 = 49800"
  by (simp add: calc_sma_def py_last_n_def sample_history_def sample_flat_def sample_rise_def sample_last_def)
lemma sample_sma6: "calc_sma sample_history 6 = 49400"
  by (simp add: calc_sma_def py_last_n_def sample_history_def sample_flat_def sample_rise_def sample_last_def)
lemma sample_sma12: "calc_sma sample_history 12 = 49200"
  by (simp add: calc_sma_def py_last_n_def sample_history_def sample_flat_def sample_rise_def sample_last_def)
lemma sample_history_last: "last sample_history = sample_last" "sample_history \<noteq> []"
  by (simp_all add: sample_history_def)
lemma sample_strike: "calc_strike 50400 ''OTM'' = 50250"
  by (simp add: calc_strike_def STRIKE_INCREMENT_def)


lemma sample_last_indicators: "calc_volatility sample_last = 1" "calc_price_position sample_last = 80" "calc_hour_return sample_last 50400 = 0.8"
  by (simp_all add: calc_volatility_def calc_price_position_def calc_hour_return_def sample_last_def Let_def)
lemma sample_momentum: "calc_momentum_3h sample_history 50400 = 1400 / 490"
  by (simp add: calc_momentum_3h_def sample_history_def sample_flat_def Let_def)

lemma sample_check_conservative: "check_conservative sample_history 50400 15 d = Inr r \<Longrightarrow> signal r = (150 \<ge> d)"
  by (auto simp add: check_conservative_def Let_def sample_sma3 sample_sma6 sample_sma12 sample_history_last sample_last_indicators sample_strike)
lemma sample_check_aggressive: "check_aggressive sample_history 50400 15 d = Inr r \<Longrightarrow> signal r = (150 \<ge> d)"
  by (auto simp add: check_aggressive_def Let_def sample_sma3 sample_sma6 sample_sma12 sample_history_last sample_last_indicators sample_strike sample_momentum)

lemma sample_slice: "py_slice (sample_history @ [sample_last]) (12 - 12) (12 + 1) = sample_history"
  by (simp add: py_slice_def sample_history_def)
lemma sample_nth12: "(sample_history @ [sample_last]) ! 12 = sample_last"
  by (simp add: sample_history_def)
lemma sample_range: "[12 ..< length (sample_history @ [sample_last]) - 1] = [12]"
  by (simp add: sample_history_def)
lemma sample_hour: "hour_utc_of (open_time sample_last) = 15"
  by (simp add: hour_utc_of_def sample_last_def)
lemma sample_close: "c_close sample_last = 50400"
  by (simp add: sample_last_def)

lemma sample_run_conservative: "run_backtest_signals check_conservative d (sample_history @ [sample_last]) = Inr (if d \<le> 150 then 1 else 0)"
proof -
  from check_conservative_ok [of sample_history 50400 15 d] sample_history_last obtain r
    where r: "check_conservative sample_history 50400 15 d = Inr r" by blast
  from sample_check_conservative [OF r] have "signal r = (d \<le> 150)" .
  then show ?thesis
    unfolding run_backtest_signals_def sample_range
    using r sample_slice by (simp add: sample_nth12 sample_hour sample_close Let_def)
qed

lemma sample_run_aggressive: "run_backtest_signals check_aggressive d (sample_history @ [sample_last]) = Inr (if d \<le> 150 then 1 else 0)"
proof -
  from check_aggressive_ok [of sample_history 50400 15 d] sample_history_last obtain r
    where r: "check_aggressive sample_history 50400 15 d = Inr r" by blast
  from sample_check_aggressive [OF r] have "signal r = (d \<le> 150)" .
  then show ?thesis
    unfolding run_backtest_signals_def sample_range
    using r sample_slice by (simp add: sample_nth12 sample_hour sample_close Let_def)
qed

lemma sample_fires_conservative: "fires check_conservative sample_history 50400 15 d = (d \<le> 150)"
  using check_conservative_ok [of sample_history 50400 15 d] sample_history_last sample_check_conservative [of d] by (auto simp: fires_def)

lemma sample_fires_aggressive: "fires check_aggressive sample_history 50400 15 d = (d \<le> 150)"
  using check_aggressive_ok [of sample_history 50400 15 d] sample_history_last sample_check_aggressive [of d] by (auto simp: fires_def)

text \<open>
  C7.  For thresholds \<open>d1 \<le> d2\<close>, on the same candle window, price and hour,
  \<open>check_conservative\<close> (and likewise \<open>check_aggressive\<close>) fires with \<open>d1\<close> whenever
  it fires with \<open>d2\<close>; and over any candle path the signal count of \<open>run_backtest\<close>
  is defined for both thresholds (the history window is never empty, so no call
  raises) and the count with \<open>d2\<close> is at most the count with \<open>d1\<close>.
\<close>

theorem min_strike_distance_monotone:
  assumes "d1 \<le> d2"
  shows "(fires check_conservative c p h d2 \<longrightarrow> fires check_conservative c p h d1)
       \<and> (fires check_aggressive c p h d2 \<longrightarrow> fires check_aggressive c p h d1)
       \<and> (\<exists>n1 n2. run_backtest_signals check_conservative d1 candles = Inr n1
             \<and> run_backtest_signals check_conservative d2 candles = Inr n2 \<and> n2 \<le> n1)
       \<and> (\<exists>n1 n2. run_backtest_signals check_aggressive d1 candles = Inr n1
             \<and> run_backtest_signals check_aggressive d2 candles = Inr n2 \<and> n2 \<le> n1)"
proof -
  have mc: "\<exists>r1. check_conservative c p h d1 = Inr r1 \<and> (signal r2 \<longrightarrow> signal r1)"
    if "check_conservative c p h d2 = Inr r2" for c p h r2
    using assms that by (rule check_conservative_mono)
  have ma: "\<exists>r1. check_aggressive c p h d1 = Inr r1 \<and> (signal r2 \<longrightarrow> signal r1)"
    if "check_aggressive c p h d2 = Inr r2" for c p h r2
    using assms that by (rule check_aggressive_mono)
  have 1: "fires check_conservative c p h d2 \<longrightarrow> fires check_conservative c p h d1"
    using fires_mono [where fn = check_conservative and ?d2.0 = d2 and ?d1.0 = d1, OF mc] by blast
  have 2: "fires check_aggressive c p h d2 \<longrightarrow> fires check_aggressive c p h d1"
    using fires_mono [where fn = check_aggressive and ?d2.0 = d2 and ?d1.0 = d1, OF ma] by blast
  have 3: "\<exists>n1 n2. run_backtest_signals check_conservative d1 candles = Inr n1
             \<and> run_backtest_signals check_conservative d2 candles = Inr n2 \<and> n2 \<le> n1"
    by (rule run_backtest_signals_mono [where fn = check_conservative and ?d1.0 = d1 and ?d2.0 = d2,
          OF mc check_conservative_ok])
  have 4: "\<exists>n1 n2. run_backtest_signals check_aggressive d1 candles = Inr n1
             \<and> run_backtest_signals check_aggressive d2 candles = Inr n2 \<and> n2 \<le> n1"
    by (rule run_backtest_signals_mono [where fn = check_aggressive and ?d1.0 = d1 and ?d2.0 = d2,
          OF ma check_aggressive_ok])
  from 1 2 3 4 show ?thesis by blast
qed


theorem min_strike_distance_monotone_witness:
  "fires check_conservative sample_history 50400 15 100 \<and> fires check_conservative sample_history 50400 15 0
   \<and> fires check_aggressive sample_history 50400 15 100 \<and> fires check_aggressive sample_history 50400 15 0
   \<and> run_backtest_signals check_conservative 0 (sample_history @ [sample_last]) = Inr 1
   \<and> run_backtest_signals check_conservative 200 (sample_history @ [sample_last]) = Inr 0
   \<and> run_backtest_signals check_aggressive 0 (sample_history @ [sample_last]) = Inr 1
   \<and> run_backtest_signals check_aggressive 200 (sample_history @ [sample_last]) = Inr 0"
  using min_strike_distance_monotone [of 0 100 sample_history 50400 15 "sample_history @ [sample_last]"]
        min_strike_distance_monotone [of 0 200 sample_history 50400 15 "sample_history @ [sample_last]"]
  by (simp add: sample_fires_conservative sample_fires_aggressive sample_run_conservative sample_run_aggressive)


section \<open>Window grouping rejects incomplete windows\<close>

lemma map_of_bucket_append:
  "map_of (bucket_append k c b)
     = (map_of b)(k \<mapsto> (case map_of b k of None \<Rightarrow> [c] | Some cs \<Rightarrow> cs @ [c]))"
  by (induction b) (auto simp: fun_eq_iff)

lemma keys_bucket_append:
  "map fst (bucket_append k c b) = (if k \<in> set (map fst b) then map fst b else map fst b @ [k])"
  by (induction b) force+

lemma build_buckets_snoc:
  "build_buckets (xs @ [x]) = bucket_append (window_start_of x) x (build_buckets xs)"
  by (simp add: build_buckets_def)

lemma distinct_build_buckets: "distinct (map fst (build_buckets xs))"
proof (induction xs rule: rev_induct)
  case Nil
  then show ?case by (simp add: build_buckets_def)
next
  case (snoc x xs)
  then show ?case by (simp add: build_buckets_snoc keys_bucket_append)
qed

lemma map_of_build_buckets:
  "map_of (build_buckets xs) k
     = (if k \<in> window_start_of ` set xs then Some (filter (\<lambda>c. window_start_of c = k) xs) else None)"
proof (induction xs arbitrary: k rule: rev_induct)
  case Nil
  then show ?case by (simp add: build_buckets_def)
next
  case (snoc x xs)
  show ?case
  proof (cases "k = window_start_of x")
    case True
    have none: "filter (\<lambda>c. window_start_of c = k) xs = []" if "k \<notin> window_start_of ` set xs"
      using that by (auto simp: filter_empty_conv)
    show ?thesis
      using True none by (simp add: build_buckets_snoc map_of_bucket_append snoc.IH)
  next
    case False
    then show ?thesis
      by (simp add: build_buckets_snoc map_of_bucket_append snoc.IH)
  qed
qed

lemma build_buckets_mem:
  "(k, cs) \<in> set (build_buckets xs)
     \<longleftrightarrow> k \<in> window_start_of ` set xs \<and> cs = filter (\<lambda>c. window_start_of c = k) xs"
proof -
  have "(k, cs) \<in> set (build_buckets xs) \<longleftrightarrow> map_of (build_buckets xs) k = Some cs"
    using distinct_build_buckets [of xs] by simp
  then show ?thesis by (auto simp: map_of_build_buckets)
qed

lemma window_of_bucket_mem:
  assumes "w \<in> set (window_of_bucket k b)"
  shows "ts w = k \<and> length b = 3 \<and> w_candles w = sort_key k_t b"
  using assms by (auto simp: window_of_bucket_def Let_def split: if_splits)

lemma group_mem:
  assumes "w \<in> set (group_15min_windows candles)"
  shows "length (filter (\<lambda>c. window_start_of c = ts w) candles) = 3
       \<and> w_candles w = sort_key k_t (filter (\<lambda>c. window_start_of c = ts w) candles)"
proof -
  from assms obtain k b where kb: "(k, b) \<in> set (build_buckets candles)" and w: "w \<in> set (window_of_bucket k b)"
    by (auto simp: group_15min_windows_def Let_def)
  from window_of_bucket_mem [OF w] have "ts w = k" "length b = 3" "w_candles w = sort_key k_t b" by auto
  moreover from kb have "b = filter (\<lambda>c. window_start_of c = k) candles" by (simp add: build_buckets_mem)
  ultimately show ?thesis by simp
qed

lemma map_ts_window_of_bucket:
  "map ts (window_of_bucket k b) = (if length b = 3 then [k] else [])"
  by (simp add: window_of_bucket_def Let_def)


lemma map_ts_group:
  "map ts (group_15min_windows candles)
     = concat (map (\<lambda>(k, b). if length b = 3 then [k] else []) (sort_key fst (build_buckets candles)))"
  by (simp add: group_15min_windows_def Let_def map_concat comp_def split_def map_ts_window_of_bucket)

lemma sample_5min_buckets:
  "build_buckets sample_5min =
     [(0, [sample_5min ! 0, sample_5min ! 2, sample_5min ! 3]),
      (900, [sample_5min ! 1, sample_5min ! 4])]"
  by (simp add: build_buckets_def sample_5min_def window_start_of_def)

lemma sample_5min_ts: "map ts (group_15min_windows sample_5min) = [0]"
  by (simp add: map_ts_group sample_5min_buckets)

lemma sample_5min_counts:
  "length (filter (\<lambda>c. window_start_of c = 900) sample_5min) = 2"
  "length (filter (\<lambda>c. window_start_of c = 0) sample_5min) = 3"
  by (simp_all add: sample_5min_def window_start_of_def)

text \<open>
  C9.  Every window that \<open>group_15min_windows\<close> emits belongs to a 15-minute bucket
  that holds exactly three of the input candles, and the window's candles are those
  three; a bucket with fewer than three candles has no window in the output.
\<close>

theorem group_15min_windows_complete_only:
  "(\<forall>w \<in> set (group_15min_windows candles).
       length (filter (\<lambda>c. window_start_of c = ts w) candles) = 3
     \<and> length (w_candles w) = 3
     \<and> mset (w_candles w) = mset (filter (\<lambda>c. window_start_of c = ts w) candles))
   \<and> (\<forall>ws. length (filter (\<lambda>c. window_start_of c = ws) candles) < 3
         \<longrightarrow> ws \<notin> ts ` set (group_15min_windows candles))"
proof (intro conjI ballI allI impI)
  fix w assume w: "w \<in> set (group_15min_windows candles)"
  from group_mem [OF w]
  show "length (filter (\<lambda>c. window_start_of c = ts w) candles) = 3" by simp
  from group_mem [OF w]
  show "length (w_candles w) = 3" by simp
  from group_mem [OF w]
  show "mset (w_candles w) = mset (filter (\<lambda>c. window_start_of c = ts w) candles)" by simp
next
  fix ws assume lt: "length (filter (\<lambda>c. window_start_of c = ws) candles) < 3"
  show "ws \<notin> ts ` set (group_15min_windows candles)"
  proof
    assume "ws \<in> ts ` set (group_15min_windows candles)"
    then obtain w where "w \<in> set (group_15min_windows candles)" "ts w = ws" by auto
    with group_mem [of w candles] lt show False by simp
  qed
qed

theorem group_15min_windows_complete_only_witness: "map ts (group_15min_windows sample_5min) = [0]
   \<and> length (filter (\<lambda>c. window_start_of c = 0) sample_5min) = 3
   \<and> length (filter (\<lambda>c. window_start_of c = 900) sample_5min) = 2
   \<and> 900 \<notin> ts ` set (group_15min_windows sample_5min)"
proof -
  have "900 \<notin> ts ` set (group_15min_windows sample_5min)"
    using group_15min_windows_complete_only [of sample_5min] sample_5min_counts by simp
  then show ?thesis by (simp add: sample_5min_ts sample_5min_counts)
qed


section \<open>Ruin is terminal in \<open>run_variant\<close>\<close>

lemma run_variant_step_below:
  assumes "bankroll st < position_size ps * 0.5"
  shows "run_variant_step candles ps i st
           = (if fires_at candles ps i then st\<lparr>ruin_hit := True\<rparr> else st)"
  using assms by (auto simp: run_variant_step_def fires_at_def Let_def split: option.splits)

lemma fold_run_variant_step_below:
  assumes "bankroll st < position_size ps * 0.5"
  shows "\<exists>b. fold (run_variant_step candles ps) idx st = st\<lparr>ruin_hit := b\<rparr>
             \<and> (ruin_hit st \<longrightarrow> b)"
  using assms
proof (induction idx arbitrary: st)
  case Nil
  have "st = st\<lparr>ruin_hit := ruin_hit st\<rparr>" by simp
  then show ?case by (metis fold_simps(1))
next
  case (Cons i rest)
  define st1 where "st1 = run_variant_step candles ps i st"
  have st1: "st1 = (if fires_at candles ps i then st\<lparr>ruin_hit := True\<rparr> else st)"
    unfolding st1_def using Cons.prems by (rule run_variant_step_below)
  then have b1: "bankroll st1 < position_size ps * 0.5" using Cons.prems by simp
  from Cons.IH [OF b1] obtain b where
    b: "fold (run_variant_step candles ps) rest st1 = st1\<lparr>ruin_hit := b\<rparr>" "ruin_hit st1 \<longrightarrow> b"
    by blast
  have "fold (run_variant_step candles ps) (i # rest) st = st\<lparr>ruin_hit := b\<rparr>"
    using b(1) st1 by (simp add: st1_def [symmetric])
  moreover have "ruin_hit st \<longrightarrow> b" using b(2) st1 by simp
  ultimately show ?case by blast
qed

lemma sqrt_half_ge: "3 / 5 \<le> sqrt (1 / 2)"
  by (rule real_le_rsqrt) (simp add: power2_eq_square)

lemma sample_fair_value: "estimate_fair_value_bucketed 50400 50250 1 30 = 0.69"
proof -
  define r where "r = sqrt (1 / 2 :: real)"
  have r: "3 / 5 \<le> r" "0 < r" using sqrt_half_ge by (simp_all add: r_def)
  define z where "z = 150 / (504 * r)"
  have z0: "0 < z" using r by (simp add: z_def)
  have "150 \<le> 0.5 * (504 * r)" using r by simp
  then have z1: "z \<le> 0.5" using r unfolding z_def by (simp add: pos_divide_le_eq)
  have "estimate_fair_value_bucketed 50400 50250 1 30 =
          (if z \<le> -3 then 0.001
               else if z \<le> -2 then 0.02
               else if z \<le> -1 then 0.16
               else if z \<le> -0.5 then 0.31
               else if z \<le> 0 then 0.50
               else if z \<le> 0.5 then 0.69
               else if z \<le> 1 then 0.84
               else if z \<le> 1.5 then 0.93
               else if z \<le> 2 then 0.98
               else 0.99)"
    using r unfolding estimate_fair_value_bucketed_def Let_def z_def r_def by simp
  also have "\<dots> = 0.69" using z0 z1 by simp
  finally show ?thesis .
qed


lemma sqrt_half_le: "sqrt (1 / 2) \<le> 4 / 5"
  by (rule real_le_lsqrt) (simp_all add: power2_eq_square)

lemma sample_ruin_check_12:
  "check_signal sample_history 50400 30 sample_ruin_params
     = Some \<lparr>es_strike = 50250, es_entry_price = 0.65, es_contracts = 230,
              es_fair_value = 0.69, es_volatility = 1\<rparr>"
  by (simp add: check_signal_def Let_def sample_ruin_params_def sample_sma3 sample_sma6 sample_sma12
      sample_history_last sample_last_indicators sample_strike sample_fair_value)

lemma sample_dip_sma:
  "calc_sma sample_history_dip 3 = 150640 / 3"
  "calc_sma sample_history_dip 6 = 297640 / 6"
  "calc_sma sample_history_dip 12 = 591640 / 12"
  by (simp_all add: calc_sma_def py_last_n_def sample_history_dip_def sample_flat_def
      sample_rise_def sample_last_def sample_dip_def)

lemma sample_dip_indicators:
  "last sample_history_dip = sample_dip"
  "calc_volatility sample_dip = 125 / 126"
  "calc_price_position sample_dip = 68"
  "calc_strike 50240 ''OTM'' = 50000"
  by (simp_all add: sample_history_dip_def calc_volatility_def calc_price_position_def
      sample_dip_def Let_def calc_strike_def STRIKE_INCREMENT_def)

lemma sample_dip_fair_value: "estimate_fair_value_bucketed 50240 50000 (125 / 126) 30 = 0.84"
proof -
  define r where "r = sqrt (1 / 2 :: real)"
  have r: "3 / 5 \<le> r" "r \<le> 4 / 5" "0 < r"
    using sqrt_half_ge sqrt_half_le by (simp_all add: r_def)
  define em where "em = 50240 * (125 / 126 / 100) * r"
  have em0: "0 < em" using r by (simp add: em_def)
  have "50240 * (125 / 126 / 100) * (3 / 5) \<le> em"
    unfolding em_def using r(1) by (intro mult_left_mono) auto
  then have lo: "240 \<le> em" by simp
  have "em \<le> 50240 * (125 / 126 / 100) * (4 / 5)"
    unfolding em_def using r(2) by (intro mult_left_mono) auto
  then have hi: "em < 480" by simp
  define z where "z = 240 / em"
  have z1: "z \<le> 1" using lo em0 by (simp add: z_def)
  have z0: "0.5 < z" using hi em0 by (simp add: z_def pos_less_divide_eq)
  have "estimate_fair_value_bucketed 50240 50000 (125 / 126) 30 =
          (if z \<le> -3 then 0.001
               else if z \<le> -2 then 0.02
               else if z \<le> -1 then 0.16
               else if z \<le> -0.5 then 0.31
               else if z \<le> 0 then 0.50
               else if z \<le> 0.5 then 0.69
               else if z \<le> 1 then 0.84
               else if z \<le> 1.5 then 0.93
               else if z \<le> 2 then 0.98
               else 0.99)"
    using em0 unfolding estimate_fair_value_bucketed_def Let_def z_def em_def r_def by simp
  also have "\<dots> = 0.84" using z0 z1 by simp
  finally show ?thesis .
qed

lemma sample_ruin_check_13:
  "check_signal sample_history_dip 50240 30 sample_ruin_params
     = Some \<lparr>es_strike = 50000, es_entry_price = 0.79, es_contracts = 189,
              es_fair_value = 0.84, es_volatility = 125 / 126\<rparr>"
  by (simp add: check_signal_def Let_def sample_ruin_params_def sample_dip_sma
      sample_dip_indicators sample_dip_fair_value)


lemma sample_ruin_path_facts:
  "[12 ..< length sample_ruin_path - 1] = [12] @ 13 # [14]"
  "py_slice sample_ruin_path (12 - 12) (12 + 1) = sample_history"
  "py_slice sample_ruin_path (12 + 1) (12 + 3) = [sample_dip, sample_last]"
  "py_slice sample_ruin_path (13 - 12) (13 + 1) = sample_history_dip"
  "sample_ruin_path ! 12 = sample_last"
  "sample_ruin_path ! 13 = sample_dip"
  by (simp_all add: sample_ruin_path_def sample_history_def sample_history_dip_def py_slice_def)

lemma sample_ruin_trade:
  "simulate_trade_exit_switch e 50250 c [sample_dip, sample_last] v False
     = \<lparr>outcome = ''loss'', pnl = calc_net_pnl c e 0 ''settlement'', settlement_price = None,
        exit_reason = None\<rparr>"
  by (simp add: simulate_trade_exit_switch_def settle_trade_def sample_dip_def)

lemma record_trade_core:
  "trades (record_trade result st) = trades st + 1
   \<and> total_pnl (record_trade result st) = total_pnl st + pnl result
   \<and> bankroll (record_trade result st) = bankroll st + pnl result
   \<and> ruin_hit (record_trade result st) = ruin_hit st"
  by (simp add: record_trade_def Let_def)

lemma sample_ruin_step_12:
  "trades (run_variant_step sample_ruin_path sample_ruin_params 12 run_variant_init) = 1"
  "bankroll (run_variant_step sample_ruin_path sample_ruin_params 12 run_variant_init) = - 51.7425"
  "total_pnl (run_variant_step sample_ruin_path sample_ruin_params 12 run_variant_init) = - 151.7425"
proof -
  have low: "\<not> bankroll run_variant_init < position_size sample_ruin_params * 0.5"
    by (simp add: run_variant_init_def sample_ruin_params_def)
  have el: "use_exit_logic sample_ruin_params = False"
    by (simp add: sample_ruin_params_def)
  define result where "result = \<lparr>outcome = ''loss'', pnl = calc_net_pnl 230 0.65 0 ''settlement'',
     settlement_price = None, exit_reason = None\<rparr>"
  have step: "run_variant_step sample_ruin_path sample_ruin_params 12 run_variant_init
          = record_trade result run_variant_init"
    unfolding run_variant_step_def Let_def sample_ruin_path_facts sample_close
      sample_ruin_check_12 option.case
    using low by (simp add: el sample_ruin_trade result_def)
  have p: "pnl result = - 151.7425"
    by (simp add: result_def calc_net_pnl_def TAKER_FEE_PCT_def Let_def)
  show "trades (run_variant_step sample_ruin_path sample_ruin_params 12 run_variant_init) = 1"
    unfolding step using record_trade_core [of result run_variant_init]
    by (simp add: run_variant_init_def)
  show "bankroll (run_variant_step sample_ruin_path sample_ruin_params 12 run_variant_init) = - 51.7425"
    unfolding step using record_trade_core [of result run_variant_init]
    by (simp add: run_variant_init_def p)
  show "total_pnl (run_variant_step sample_ruin_path sample_ruin_params 12 run_variant_init) = - 151.7425"
    unfolding step using record_trade_core [of result run_variant_init]
    by (simp add: run_variant_init_def p)
qed

lemma sample_ruin_fires_13: "fires_at sample_ruin_path sample_ruin_params 13"
  unfolding fires_at_def sample_ruin_path_facts
  by (simp add: sample_dip_def sample_ruin_check_13 [unfolded sample_dip_def])

text \<open>
  C6.  Take any point of the loop of \<open>run_variant\<close>: the indices before it, the index
  \<open>i\<close>, the indices after it, and the state \<open>st\<close> reached before \<open>i\<close>.  If a signal
  fires at \<open>i\<close> and the bankroll is below half the position size, then after \<open>i\<close>
  and after every later step the ruin flag is set and the trade count, the bankroll and
  the total PnL are those of \<open>st\<close>; the returned dictionary reports them.  The loop is a
  total function: no step raises.
\<close>

theorem run_variant_ruin_terminal:
  assumes split: "[12 ..< length candles - 1] = pre @ i # post"
    and st: "st = fold (run_variant_step candles ps) pre run_variant_init"
    and sig: "fires_at candles ps i"
    and low: "bankroll st < position_size ps * 0.5"
  shows "(\<forall>k \<le> length post.
            ruin_hit (fold (run_variant_step candles ps) (i # take k post) st)
          \<and> trades (fold (run_variant_step candles ps) (i # take k post) st) = trades st
          \<and> bankroll (fold (run_variant_step candles ps) (i # take k post) st) = bankroll st
          \<and> total_pnl (fold (run_variant_step candles ps) (i # take k post) st) = total_pnl st)
       \<and> r_ruin_hit (run_variant candles ps)
       \<and> r_trades (run_variant candles ps) = trades st
       \<and> r_final_bankroll (run_variant candles ps) = bankroll st
       \<and> r_total_pnl (run_variant candles ps) = total_pnl st"
proof -
  define st1 where "st1 = run_variant_step candles ps i st"
  have st1: "st1 = st\<lparr>ruin_hit := True\<rparr>"
    unfolding st1_def using run_variant_step_below [OF low] sig by simp
  have b1: "bankroll st1 < position_size ps * 0.5" using low st1 by simp
  have after: "\<exists>b. fold (run_variant_step candles ps) (i # rest) st = st\<lparr>ruin_hit := True\<rparr>" for rest
  proof -
    from fold_run_variant_step_below [OF b1, of candles rest] obtain b where
      "fold (run_variant_step candles ps) rest st1 = st1\<lparr>ruin_hit := b\<rparr>" "ruin_hit st1 \<longrightarrow> b"
      by blast
    then show ?thesis using st1 by (simp add: st1_def [symmetric])
  qed
  have eq: "fold (run_variant_step candles ps) (i # rest) st = st\<lparr>ruin_hit := True\<rparr>" for rest
    using after [of rest] by simp
  have loop: "run_variant_loop candles ps = st\<lparr>ruin_hit := True\<rparr>"
    unfolding run_variant_loop_def split using eq [of post] st by simp
  have steps: "\<forall>k \<le> length post.
            ruin_hit (fold (run_variant_step candles ps) (i # take k post) st)
          \<and> trades (fold (run_variant_step candles ps) (i # take k post) st) = trades st
          \<and> bankroll (fold (run_variant_step candles ps) (i # take k post) st) = bankroll st
          \<and> total_pnl (fold (run_variant_step candles ps) (i # take k post) st) = total_pnl st"
    unfolding eq by simp
  have final: "r_ruin_hit (run_variant candles ps)
       \<and> r_trades (run_variant candles ps) = trades st
       \<and> r_final_bankroll (run_variant candles ps) = bankroll st
       \<and> r_total_pnl (run_variant candles ps) = total_pnl st"
    by (simp add: loop run_variant_def Let_def)
  from steps final show ?thesis by blast
qed


theorem run_variant_ruin_terminal_witness:
  "r_ruin_hit (run_variant sample_ruin_path sample_ruin_params)
   \<and> r_trades (run_variant sample_ruin_path sample_ruin_params) = 1
   \<and> r_final_bankroll (run_variant sample_ruin_path sample_ruin_params) = - 51.7425
   \<and> r_total_pnl (run_variant sample_ruin_path sample_ruin_params) = - 151.7425"
proof -
  define st where
    "st = fold (run_variant_step sample_ruin_path sample_ruin_params) [12] run_variant_init"
  have vals: "trades st = 1" "bankroll st = - 51.7425" "total_pnl st = - 151.7425"
    by (simp_all add: st_def sample_ruin_step_12)
  have low: "bankroll st < position_size sample_ruin_params * 0.5"
    by (simp add: vals sample_ruin_params_def)
  from run_variant_ruin_terminal [OF sample_ruin_path_facts(1) st_def sample_ruin_fires_13 low]
  show ?thesis by (simp add: vals)
qed

section \<open>Monotonicity of the fair value in the price, in exact arithmetic\<close>

lemma as_poly_has_deriv: "DERIV as_poly t :> as_poly_deriv t"
  unfolding as_poly_def [abs_def] as_poly_deriv_def
  by (auto intro!: derivative_eq_intros simp: algebra_simps power2_eq_square power3_eq_cube power4_eq_xxxx)

lemma as_poly_deriv_low_part: "0 \<le> 0.254829592 + 2 * (-0.284496736) * t + t^2" for t :: real
proof -
  have "0.254829592 + 2 * (-0.284496736) * t + t^2 = (t - 0.284496736)^2 + (0.254829592 - 0.284496736^2)"
    by (simp add: power2_eq_square algebra_simps)
  moreover have "0 \<le> (t - 0.284496736)^2" by simp
  moreover have "(0::real) \<le> 0.254829592 - 0.284496736^2" by (simp add: power2_eq_square)
  ultimately show ?thesis by linarith
qed


lemma as_poly_deriv_high_part: "0 \<le> 5 * 1.061405429 * t^2 + 4 * (-1.453152027) * t + (3 * 1.421413741 - 1)" for t :: real
proof -
  have e: "(t - 0.6)^2 = t^2 - 1.2 * t + 0.36"
    by (simp add: power2_eq_square algebra_simps)
  have eq: "5 * 1.061405429 * t^2 + 4 * (-1.453152027) * t + (3 * 1.421413741 - 1)
          = 4.84384009 * (t - 0.6)^2 + 0.463187055 * t^2 + 1.5204587906"
    unfolding e by (simp add: field_simps)
  have "0 \<le> 4.84384009 * (t - 0.6)^2 + 0.463187055 * t^2 + 1.5204587906"
    by (intro add_nonneg_nonneg mult_nonneg_nonneg) simp_all
  then show ?thesis by (simp only: eq)
qed

lemma as_poly_deriv_nonneg: "0 \<le> as_poly_deriv t"
proof -
  have "as_poly_deriv t = (0.254829592 + 2 * (-0.284496736) * t + t^2)
          + t^2 * (5 * 1.061405429 * t^2 + 4 * (-1.453152027) * t + (3 * 1.421413741 - 1))"
    unfolding as_poly_deriv_def
    by (simp add: power2_eq_square power3_eq_cube power4_eq_xxxx algebra_simps)
  moreover have "0 \<le> t^2 * (5 * 1.061405429 * t^2 + 4 * (-1.453152027) * t + (3 * 1.421413741 - 1))"
    using as_poly_deriv_high_part [of t] by (intro mult_nonneg_nonneg) simp_all
  ultimately show ?thesis using as_poly_deriv_low_part [of t] by linarith
qed

lemma as_poly_mono: "s \<le> t \<Longrightarrow> as_poly s \<le> as_poly t"
  by (rule DERIV_nonneg_imp_nondecreasing [of s t as_poly])
     (auto intro: as_poly_has_deriv as_poly_deriv_nonneg)

lemma as_poly_0: "as_poly 0 = 0"
  by (simp add: as_poly_def)
lemma as_poly_1: "as_poly 1 = 0.999999999"
  by (simp add: as_poly_def)

lemma as_poly_nonneg: "0 \<le> t \<Longrightarrow> 0 \<le> as_poly t"
  using as_poly_mono [of 0 t] by (simp add: as_poly_0)

lemma tail_term_antimono:
  assumes "0 \<le> x" "x \<le> y"
  shows "tail_term y \<le> tail_term x"
proof -
  have d: "0 < 1 + 0.3275911 * x" "0 < 1 + 0.3275911 * y" using assms by auto
  have "1 + 0.3275911 * x \<le> 1 + 0.3275911 * y" using assms by simp
  then have t: "1 / (1 + 0.3275911 * y) \<le> 1 / (1 + 0.3275911 * x)"
    using d by (simp add: frac_le)
  have p: "as_poly (1 / (1 + 0.3275911 * y)) \<le> as_poly (1 / (1 + 0.3275911 * x))"
    using t by (rule as_poly_mono)
  have "x * x \<le> y * y" using assms by (intro mult_mono) auto
  then have e: "exp (- y * y / 2) \<le> exp (- x * x / 2)" by simp
  have "0 \<le> as_poly (1 / (1 + 0.3275911 * y))"
    using d by (intro as_poly_nonneg) simp
  then show ?thesis unfolding tail_term_def
    using p e by (intro mult_mono) auto
qed

lemma tail_term_0: "tail_term 0 = 0.999999999"
  by (simp add: tail_term_def as_poly_1)

lemma tail_term_bounds: "0 \<le> x \<Longrightarrow> 0 \<le> tail_term x \<and> tail_term x \<le> 1"
proof -
  assume x: "0 \<le> x"
  have "0 < 1 + 0.3275911 * x" using x by auto
  then have "0 \<le> as_poly (1 / (1 + 0.3275911 * x))" by (intro as_poly_nonneg) simp
  then have "0 \<le> tail_term x" unfolding tail_term_def by (intro mult_nonneg_nonneg) auto
  moreover have "tail_term x \<le> tail_term 0" using x by (intro tail_term_antimono) auto
  ultimately show ?thesis by (simp add: tail_term_0)
qed

lemma normal_cdf_shape:
  "normal_cdf x = 0.5 * (1.0 + (if x < 0 then -1 else 1) * (1.0 - tail_term \<bar>x\<bar>))"
  unfolding normal_cdf_def Let_def tail_term_def as_poly_def by simp

lemma normal_cdf_tail:
  "normal_cdf x = (if x < 0 then 0.5 * tail_term (- x) else 1 - 0.5 * tail_term x)"
  unfolding normal_cdf_shape by simp

lemma normal_cdf_mono:
  assumes "x \<le> y"
  shows "normal_cdf x \<le> normal_cdf y"
proof -
  consider "y < 0" | "x < 0" "0 \<le> y" | "0 \<le> x" using assms by linarith
  then show ?thesis
  proof cases
    case 1
    then have "tail_term (- x) \<le> tail_term (- y)"
      using assms by (intro tail_term_antimono) auto
    then show ?thesis using 1 assms by (simp add: normal_cdf_tail)
  next
    case 2
    have "tail_term (- x) \<le> 1" using 2 tail_term_bounds [of "- x"] by simp
    moreover have "tail_term y \<le> 1" using 2 tail_term_bounds [of y] by simp
    ultimately show ?thesis using 2 by (simp add: normal_cdf_tail)
  next
    case 3
    then have "tail_term y \<le> tail_term x"
      using assms by (intro tail_term_antimono) auto
    then show ?thesis using 3 assms by (simp add: normal_cdf_tail)
  qed
qed

lemma clamp_prob_mono: "x \<le> y \<Longrightarrow> max 0.01 (min 0.99 x) \<le> max 0.01 (min 0.99 (y::real))"
  by (intro max.mono min.mono order_refl)

lemma z_score_mono:
  assumes "0 < s" "0 < k" "0 < p1" "p1 \<le> p2"
  shows "(p1 - s) / (p1 * k) \<le> (p2 - s) / (p2 * k :: real)"
proof -
  have p2: "0 < p2" using assms by linarith
  have "(p1 - s) * (p2 * k) \<le> (p2 - s) * (p1 * k)"
  proof -
    have "(p2 - s) * (p1 * k) - (p1 - s) * (p2 * k) = s * k * (p2 - p1)"
      by (simp add: algebra_simps)
    moreover have "0 \<le> s * k * (p2 - p1)" using assms by (intro mult_nonneg_nonneg) auto
    ultimately show ?thesis by linarith
  qed
  then show ?thesis using assms p2 by (simp add: frac_le_eq divide_le_0_iff mult_pos_pos field_simps)
qed

text \<open>
  In exact arithmetic, that is with every rounding of the double operations left out, the
  fair value is monotonically non-decreasing in the price for every strike above 0.
\<close>

lemma estimate_fair_value_mono_price_exact:
  assumes "0 < strike" "p1 \<le> p2"
  shows "estimate_fair_value p1 strike vol mins \<le> estimate_fair_value p2 strike vol mins"
proof (cases "vol \<le> 0 \<or> mins \<le> 0")
  case True
  then show ?thesis using assms by (auto simp: estimate_fair_value_def)
next
  case False
  define k where "k = (vol / 100) * sqrt (max mins 0.5 / 60)"
  have k: "0 < k" using False unfolding k_def by (intro mult_pos_pos) auto
  have em: "p * (vol / 100) * sqrt (max mins 0.5 / 60) = p * k" for p
    by (simp add: k_def)
  have fv: "estimate_fair_value p strike vol mins =
        (if p \<le> 0 then 0.01 else max 0.01 (min 0.99 (normal_cdf ((p - strike) / (p * k)))))" for p
  proof -
    have "p * k \<le> 0 \<longleftrightarrow> p \<le> 0" using k by (simp add: mult_le_0_iff)
    then show ?thesis
      using False assms(1) unfolding estimate_fair_value_def Let_def em by auto
  qed
  consider "p2 \<le> 0" | "p1 \<le> 0" "0 < p2" | "0 < p1" by linarith
  then show ?thesis
  proof cases
    case 1
    then show ?thesis using assms by (simp add: fv)
  next
    case 2
    then show ?thesis by (simp add: fv)
  next
    case 3
    then have "0 < p2" using assms by linarith
    moreover have "normal_cdf ((p1 - strike) / (p1 * k)) \<le> normal_cdf ((p2 - strike) / (p2 * k))"
      by (intro normal_cdf_mono z_score_mono assms k 3)
    ultimately show ?thesis using 3 by (simp add: fv clamp_prob_mono del: max.bounded_iff min.bounded_iff)
  qed
qed


section \<open>OHLC invariant of generated candles\<close>

lemma py_round_range: "py_round x = \<lfloor>x\<rfloor> \<or> py_round x = \<lfloor>x\<rfloor> + 1"
  by (simp add: py_round_def Let_def)

lemma py_round_mono:
  assumes "x \<le> y"
  shows "py_round x \<le> py_round y"
proof (cases "\<lfloor>x\<rfloor> < \<lfloor>y\<rfloor>")
  case True
  have "py_round x \<le> \<lfloor>x\<rfloor> + 1" using py_round_range [of x] by auto
  also have "\<dots> \<le> \<lfloor>y\<rfloor>" using True by simp
  also have "\<dots> \<le> py_round y" using py_round_range [of y] by auto
  finally show ?thesis .
next
  case False
  moreover have "\<lfloor>x\<rfloor> \<le> \<lfloor>y\<rfloor>" using assms by (rule floor_mono)
  ultimately have eq: "\<lfloor>x\<rfloor> = \<lfloor>y\<rfloor>" by simp
  then have "x - real_of_int \<lfloor>x\<rfloor> \<le> y - real_of_int \<lfloor>y\<rfloor>" using assms by simp
  then show ?thesis unfolding py_round_def Let_def eq by auto
qed

lemma py_round2_mono: "x \<le> y \<Longrightarrow> py_round2 x \<le> py_round2 y"
  unfolding py_round2_def
  by (intro divide_right_mono of_int_le_iff [THEN iffD2] py_round_mono) simp_all

lemma py_round2_zero: "py_round2 0 = 0"
  by (simp add: py_round2_def py_round_def)

lemma py_round2_nonneg: "0 \<le> x \<Longrightarrow> 0 \<le> py_round2 x"
  using py_round2_mono [of 0 x] by (simp add: py_round2_zero)


lemma py_random_uniforms: "py_random g = (u, g') \<Longrightarrow> uniforms g' = uniforms g"
  by (auto simp: py_random_def)

lemma py_uniform_uniforms: "py_uniform a b g = (x, g') \<Longrightarrow> uniforms g' = uniforms g"
  by (auto simp: py_uniform_def py_random_def)

lemma py_gauss_uniforms: "py_gauss mu sigma g = (x, g') \<Longrightarrow> uniforms g' = uniforms g"
  by (auto simp: py_gauss_def)

lemma py_choices_uniforms: "py_choices pop ws g = (x, g') \<Longrightarrow> uniforms g' = uniforms g"
  by (auto simp: py_choices_def py_random_def Let_def)

lemma switch_regime_uniforms:
  "switch_regime cr rd g = (cr', rd', g') \<Longrightarrow> uniforms g' = uniforms g"
  unfolding switch_regime_def Let_def
  by (auto split: prod.splits if_splits dest!: py_random_uniforms py_choices_uniforms)

lemma draw_return_uniforms:
  "draw_return drift hv g = (ret, g') \<Longrightarrow> uniforms g' = uniforms g"
  unfolding draw_return_def Let_def
  by (auto split: prod.splits if_splits dest!: py_random_uniforms py_gauss_uniforms)

lemma draw_high_low_uniforms:
  "draw_high_low op cl ret hv g = (hi, lo, g') \<Longrightarrow> uniforms g' = uniforms g"
  unfolding draw_high_low_def Let_def
  by (auto split: prod.splits if_splits dest!: py_uniform_uniforms)

lemma py_uniform_volume:
  assumes "py_uniform 500 5000 g = (x, g')" "\<forall>n. 0 \<le> uniforms g n"
  shows "0 \<le> x"
proof -
  have "x = 500 + (5000 - 500) * uniforms g (u_pos g)"
    using assms(1) by (auto simp: py_uniform_def py_random_def)
  moreover have "0 \<le> uniforms g (u_pos g)" using assms(2) by simp
  ultimately show ?thesis by simp
qed

lemma gen_step_candles:
  "\<exists>c. g_candles (gen_step h st) = g_candles st @ [c]
     \<and> c_high c \<ge> max (c_open c) (c_close c)
     \<and> c_low c \<le> min (c_open c) (c_close c)
     \<and> ((\<forall>n. 0 \<le> uniforms (g_rng st) n) \<longrightarrow> c_volume c \<ge> 0)
     \<and> uniforms (g_rng (gen_step h st)) = uniforms (g_rng st)"
proof -
  obtain cr rd g1 where sw: "switch_regime (g_regime st) (g_duration st) (g_rng st) = (cr, rd, g1)"
    by (metis prod_cases3)
  obtain drift vol_mult name where rg: "regimes cr = (drift, vol_mult, name)"
    by (metis prod_cases3)
  obtain ret g2 where dr: "draw_return drift (base_hourly_vol * vol_mult) g1 = (ret, g2)"
    by (metis surj_pair)
  obtain high0 low0 g3 where
    hl: "draw_high_low (g_price st) (g_price st * (1 + ret)) ret (base_hourly_vol * vol_mult) g2
           = (high0, low0, g3)"
    by (metis prod_cases3)
  obtain vol_draw g4 where vd: "py_uniform 500 5000 g3 = (vol_draw, g4)"
    by (metis surj_pair)
  have u3: "uniforms g3 = uniforms (g_rng st)"
    using switch_regime_uniforms [OF sw] draw_return_uniforms [OF dr]
      draw_high_low_uniforms [OF hl] by simp
  have u4: "uniforms g4 = uniforms (g_rng st)"
    using py_uniform_uniforms [OF vd] u3 by simp
  have vol: "(\<forall>n. 0 \<le> uniforms (g_rng st) n) \<longrightarrow> 0 \<le> py_round2 vol_draw"
    using py_uniform_volume [OF vd] u3 by (auto intro: py_round2_nonneg)
  define op where "op = g_price st"
  define cl where "cl = g_price st * (1 + ret)"
  have hi: "max (py_round2 op) (py_round2 cl) \<le> py_round2 (max high0 (max op cl))"
    by (intro max.boundedI py_round2_mono) simp_all
  have lo: "py_round2 (min low0 (min op cl)) \<le> min (py_round2 op) (py_round2 cl)"
    by (intro min.boundedI py_round2_mono) simp_all
  show ?thesis
    unfolding gen_step_def Let_def sw rg dr hl vd split_conv
    using hi lo vol u4 by (simp add: op_def cl_def)
qed


lemma fold_gen_step:
  assumes "\<forall>c \<in> set (g_candles st). candle_ok c" "\<forall>n. 0 \<le> uniforms (g_rng st) n"
  shows "(\<forall>c \<in> set (g_candles (fold gen_step hs st)). candle_ok c)
       \<and> length (g_candles (fold gen_step hs st)) = length (g_candles st) + length hs"
  using assms
proof (induction hs arbitrary: st)
  case Nil
  then show ?case by simp
next
  case (Cons h hs)
  from gen_step_candles [of h st] obtain c where
    c: "g_candles (gen_step h st) = g_candles st @ [c]"
       "c_high c \<ge> max (c_open c) (c_close c)"
       "c_low c \<le> min (c_open c) (c_close c)"
       "(\<forall>n. 0 \<le> uniforms (g_rng st) n) \<longrightarrow> c_volume c \<ge> 0"
       "uniforms (g_rng (gen_step h st)) = uniforms (g_rng st)"
    by blast
  have ok: "candle_ok c" using c(2,3,4) Cons.prems(2) by (simp add: candle_ok_def)
  have 1: "\<forall>c \<in> set (g_candles (gen_step h st)). candle_ok c"
    using Cons.prems(1) ok by (simp add: c(1))
  have 2: "\<forall>n. 0 \<le> uniforms (g_rng (gen_step h st)) n"
    using Cons.prems(2) by (simp add: c(5))
  from Cons.IH [OF 1 2] show ?case by (simp add: c(1))
qed

lemma generate_negative_days:
  "days \<le> 0 \<Longrightarrow> generate_realistic_btc_data days g = Inl IndexError"
  by (simp add: generate_realistic_btc_data_def gen_init_def)

text \<open>
  The first candle on the sample generator: no regime switch, the return is the drift
  0.0004 of the bull trend, and the stored values are rounded to cents.
\<close>

lemma gen_step_first_candle:
  "g_candles (gen_step 0 (gen_init sample_rng)) =
     [\<lparr>open_time = 1739232000000, c_open = 42000, c_high = 42089.07, c_low = 41956.66,
       c_close = 42016.8, c_volume = 2750, close_time = 1739235599999\<rparr>]"
proof -
  define st0 where "st0 = gen_init sample_rng"
  define g1 where "g1 = sample_rng\<lparr>u_pos := 1\<rparr>"
  define g2 where "g2 = sample_rng\<lparr>u_pos := 2, n_pos := 1\<rparr>"
  define g3 where "g3 = sample_rng\<lparr>u_pos := 5, n_pos := 1\<rparr>"
  define g4 where "g4 = sample_rng\<lparr>u_pos := 6, n_pos := 1\<rparr>"
  have p0: "g_price st0 = 42000" "g_candles st0 = []"
    by (simp_all add: st0_def gen_init_def)
  have 1: "switch_regime (g_regime st0) (g_duration st0) (g_rng st0) = (bull_trend, 1, g1)"
    by (simp add: st0_def gen_init_def g1_def switch_regime_def py_random_def sample_rng_def Let_def)
  have 2: "regimes bull_trend = (0.0004, 0.8, ''bull'')"
    by simp
  have 3: "draw_return 0.0004 (base_hourly_vol * 0.8) g1 = (0.0004, g2)"
    by (simp add: draw_return_def py_random_def py_gauss_def sample_rng_def g1_def g2_def Let_def)
  have 4: "draw_high_low (g_price st0) (g_price st0 * (1 + 0.0004)) 0.0004
             (base_hourly_vol * 0.8) g2 = (42089.068896, 41956.656, g3)"
    by (simp add: p0 draw_high_low_def py_uniform_def py_random_def sample_rng_def g2_def g3_def
        Let_def base_hourly_vol_def)
  have 5: "py_uniform 500 5000 g3 = (2750, g4)"
    by (simp add: py_uniform_def py_random_def sample_rng_def g3_def g4_def)
  have "g_candles (gen_step 0 st0) =
     [\<lparr>open_time = 1739232000000, c_open = 42000, c_high = 42089.07, c_low = 41956.66,
       c_close = 42016.8, c_volume = 2750, close_time = 1739235599999\<rparr>]"
    unfolding gen_step_def Let_def 1 2 3 4 5 split_conv
    by (simp add: p0 start_ts_def py_round2_def py_round_def Let_def)
  then show ?thesis by (simp only: st0_def)
qed

text \<open>
  C4.  For every number of days and every seeded generator (every sequence of uniform
  values in \<open>[0, 1)\<close> and every sequence of normal deviates), each candle of the
  sequence that \<open>generate_realistic_btc_data\<close> returns satisfies, on the stored values
  rounded to cents, \<open>high \<ge> max(open, close)\<close>, \<open>low \<le> min(open, close)\<close> and
  \<open>volume \<ge> 0\<close>.  With at least one day the function returns \<open>24 * days\<close> candles;
  with none it raises \<open>IndexError\<close> at its first print and returns no sequence.
\<close>

theorem generated_candles_invariant:
  assumes "\<forall>n. 0 \<le> uniforms g n \<and> uniforms g n < 1"
  shows "(1 \<le> days \<longrightarrow>
            (\<exists>cs. generate_realistic_btc_data days g = Inr cs \<and> length cs = nat (days * 24)))
       \<and> (\<forall>cs. generate_realistic_btc_data days g = Inr cs \<longrightarrow> (\<forall>c \<in> set cs. candle_ok c))"
proof -
  define st where "st = fold gen_step (map int [0 ..< nat (days * 24)]) (gen_init g)"
  have "\<forall>c \<in> set (g_candles (gen_init g)). candle_ok c" by (simp add: gen_init_def)
  moreover have "\<forall>n. 0 \<le> uniforms (g_rng (gen_init g)) n"
    using assms by (simp add: gen_init_def)
  ultimately have inv: "(\<forall>c \<in> set (g_candles st). candle_ok c)
       \<and> length (g_candles st) = nat (days * 24)"
    unfolding st_def
    using fold_gen_step [of "gen_init g" "map int [0 ..< nat (days * 24)]"]
    by (simp add: gen_init_def)
  have gen: "generate_realistic_btc_data days g
               = (if g_candles st = [] then Inl IndexError else Inr (g_candles st))"
    by (simp add: generate_realistic_btc_data_def Let_def st_def)
  have a: "1 \<le> days \<longrightarrow>
            (\<exists>cs. generate_realistic_btc_data days g = Inr cs \<and> length cs = nat (days * 24))"
  proof
    assume "1 \<le> days"
    then have "0 < nat (days * 24)" by simp
    then have "g_candles st \<noteq> []" using inv by auto
    then show "\<exists>cs. generate_realistic_btc_data days g = Inr cs \<and> length cs = nat (days * 24)"
      using inv by (simp add: gen)
  qed
  have b: "\<forall>cs. generate_realistic_btc_data days g = Inr cs \<longrightarrow> (\<forall>c \<in> set cs. candle_ok c)"
    using inv by (auto simp: gen split: if_splits)
  from a b show ?thesis by blast
qed

theorem generated_candles_invariant_witness:
  "\<exists>cs. generate_realistic_btc_data 1 sample_rng = Inr cs \<and> length cs = 24
        \<and> (\<forall>c \<in> set cs. candle_ok c)"
proof -
  have "\<forall>n. 0 \<le> uniforms sample_rng n \<and> uniforms sample_rng n < 1"
    by (simp add: sample_rng_def)
  from generated_candles_invariant [OF this, of 1] show ?thesis by auto
qed


end
